theory Spec2Isabelle
  imports Main "HOL-Library.Sublist"
begin

section \<open>Python strings\<close>

text \<open>
  A Python \<^verbatim>\<open>str\<close> is a sequence of Unicode code points, and \<^verbatim>\<open>len\<close>, indexing,
  \<^verbatim>\<open>strip\<close>, \<^verbatim>\<open>isdigit\<close> and \<^verbatim>\<open>splitlines\<close> all work on code points. A string is
  therefore a list of code points (natural numbers); \<open>py\<close> turns an ASCII literal into
  such a list.
\<close>

type_synonym pystr = "nat list"

definition py :: "string \<Rightarrow> pystr" where
  "py s = map of_char s"

text \<open>
  \<^verbatim>\<open>str.isspace\<close>, the characters that \<^verbatim>\<open>str.strip()\<close> removes: the code points
  whose bidirectional class is WS, B or S, or whose category is Zs.
\<close>

definition isspace :: "nat \<Rightarrow> bool" where
  "isspace c \<longleftrightarrow>
     (9 \<le> c \<and> c \<le> 13) \<or> (28 \<le> c \<and> c \<le> 31) \<or> c = 32 \<or> c = 133 \<or> c = 160 \<or>
     c = 5760 \<or> (8192 \<le> c \<and> c \<le> 8202) \<or> c = 8232 \<or> c = 8233 \<or> c = 8239 \<or>
     c = 8287 \<or> c = 12288"

text \<open>
  \<^verbatim>\<open>str.isdigit\<close> is true of every code point whose Unicode numeric type is Decimal or
  Digit, not only of \<^verbatim>\<open>0\<close> to \<^verbatim>\<open>9\<close>. The table (Unicode 14.0, as in CPython 3.11) is
  given as inclusive ranges; it holds the superscript digits U+00B2, U+00B3, U+00B9, the
  digits of other scripts, and the circled and parenthesised digits from U+2460 on.
\<close>

definition digit_ranges :: "(nat \<times> nat) list" where
  "digit_ranges =
    [(48, 57), (178, 179), (185, 185), (1632, 1641), (1776, 1785), (1984, 1993),
     (2406, 2415), (2534, 2543), (2662, 2671), (2790, 2799), (2918, 2927), (3046, 3055),
     (3174, 3183), (3302, 3311), (3430, 3439), (3558, 3567), (3664, 3673), (3792, 3801),
     (3872, 3881), (4160, 4169), (4240, 4249), (4969, 4977), (6112, 6121), (6160, 6169),
     (6470, 6479), (6608, 6618), (6784, 6793), (6800, 6809), (6992, 7001), (7088, 7097),
     (7232, 7241), (7248, 7257), (8304, 8304), (8308, 8313), (8320, 8329), (9312, 9320),
     (9332, 9340), (9352, 9360), (9450, 9450), (9461, 9469), (9471, 9471),
     (10102, 10110), (10112, 10120), (10122, 10130), (42528, 42537), (43216, 43225),
     (43264, 43273), (43472, 43481), (43504, 43513), (43600, 43609), (44016, 44025),
     (65296, 65305), (66720, 66729), (68160, 68163), (68912, 68921), (69216, 69224),
     (69714, 69722), (69734, 69743), (69872, 69881), (69942, 69951), (70096, 70105),
     (70384, 70393), (70736, 70745), (70864, 70873), (71248, 71257), (71360, 71369),
     (71472, 71481), (71904, 71913), (72016, 72025), (72784, 72793), (73040, 73049),
     (73120, 73129), (92768, 92777), (92864, 92873), (93008, 93017), (120782, 120831),
     (123200, 123209), (123632, 123641), (125264, 125273), (127232, 127242),
     (130032, 130041)]"

definition isdigit :: "nat \<Rightarrow> bool" where
  "isdigit c = list_ex (\<lambda>(lo, hi). lo \<le> c \<and> c \<le> hi) digit_ranges"

text \<open>The line boundaries of \<^verbatim>\<open>str.splitlines()\<close>.\<close>

definition is_linebreak :: "nat \<Rightarrow> bool" where
  "is_linebreak c \<longleftrightarrow>
     (10 \<le> c \<and> c \<le> 13) \<or> (28 \<le> c \<and> c \<le> 30) \<or> c = 133 \<or> c = 8232 \<or> c = 8233"

text \<open>\<^verbatim>\<open>s.strip()\<close>: leading and trailing whitespace removed.\<close>

definition strip :: "pystr \<Rightarrow> pystr" where
  "strip s = rev (dropWhile isspace (rev (dropWhile isspace s)))"

text \<open>\<^verbatim>\<open>s.lstrip(chars)\<close>: the longest prefix made of characters of \<open>chars\<close> removed.\<close>

definition lstrip :: "pystr \<Rightarrow> pystr \<Rightarrow> pystr" where
  "lstrip chars s = dropWhile (\<lambda>c. c \<in> set chars) s"

text \<open>
  \<^verbatim>\<open>s.splitlines()\<close>: the lines of \<open>s\<close> without their line breaks. \<^verbatim>\<open>\r\n\<close> is one
  break; a break at the very end opens no further line. \<open>cur\<close> is the line read so far.
\<close>

fun splitlines_from :: "pystr \<Rightarrow> pystr \<Rightarrow> pystr list" where
  "splitlines_from cur [] = (if cur = [] then [] else [cur])"
| "splitlines_from cur (c # cs) =
     (if is_linebreak c then
        cur # (case cs of
                 [] \<Rightarrow> []
               | d # ds \<Rightarrow> if c = 13 \<and> d = 10 then splitlines_from [] ds
                           else splitlines_from [] cs)
      else splitlines_from (cur @ [c]) cs)"

definition splitlines :: "pystr \<Rightarrow> pystr list" where
  "splitlines s = splitlines_from [] s"

text \<open>\<^verbatim>\<open>sep.join(xs)\<close>.\<close>

fun join :: "pystr \<Rightarrow> pystr list \<Rightarrow> pystr" where
  "join sep [] = []"
| "join sep [x] = x"
| "join sep (x # y # ys) = x @ sep @ join sep (y # ys)"

text \<open>\<^verbatim>\<open>str(n)\<close> of an integer, as an f-string formats it.\<close>

fun str_nat :: "nat \<Rightarrow> pystr" where
  "str_nat n = (if n < 10 then [48 + n] else str_nat (n div 10) @ [48 + n mod 10])"

declare str_nat.simps [simp del]

definition str_int :: "int \<Rightarrow> pystr" where
  "str_int i = (if i < 0 then 45 # str_nat (nat (- i)) else str_nat (nat i))"

section \<open>Python lists\<close>

datatype error = IndexError

text \<open>\<^verbatim>\<open>xs[i]\<close>: a negative index counts from the end, an index out of range raises.\<close>

definition getitem :: "'a list \<Rightarrow> int \<Rightarrow> error + 'a" where
  "getitem xs i =
     (if 0 \<le> i \<and> i < int (length xs) then Inr (xs ! nat i)
      else if i < 0 \<and> - int (length xs) \<le> i then Inr (xs ! nat (int (length xs) + i))
      else Inl IndexError)"

text \<open>\<^verbatim>\<open>xs[:n]\<close>: a negative bound counts from the end; the slice never raises.\<close>

definition slice_to :: "int \<Rightarrow> 'a list \<Rightarrow> 'a list" where
  "slice_to n xs = (if n < 0 then take (nat (int (length xs) + n)) xs else take (nat n) xs)"

section \<open>The generation backend\<close>

text \<open>
  \<^verbatim>\<open>MODEL\<close> is either \<^verbatim>\<open>None\<close> (no package, no key, or configuration failed) or an object
  whose \<^verbatim>\<open>generate_content(prompt)\<close> is called inside \<^verbatim>\<open>try\<close>. What the engine sees of
  one such call is either an \<^verbatim>\<open>Exception\<close> \<open>e\<close>, of which it uses \<^verbatim>\<open>str(e)\<close> only, or a
  response whose \<^verbatim>\<open>text\<close> is a string or \<^verbatim>\<open>None\<close>. A call that blocks forever is outside
  the model, as are \<^verbatim>\<open>KeyboardInterrupt\<close> and \<^verbatim>\<open>SystemExit\<close>, which \<^verbatim>\<open>except Exception\<close>
  does not catch.
\<close>

datatype outcome = Raises pystr | Returns "pystr option"

datatype backend = NoModel | Model "pystr \<Rightarrow> outcome"

section \<open>The engine\<close>

definition FALLBACK_QUESTIONS :: "pystr list" where
  "FALLBACK_QUESTIONS =
    [py ''Why should we hire you?'',
     py ''Tell me about yourself.'',
     py ''What are your strengths?'',
     py ''What are your weaknesses?'',
     py ''Where do you see yourself in 5 years?'',
     py ''Why do you want to work here?'',
     py ''Tell me about a challenge you faced at work.'',
     py ''How do you handle pressure?'',
     py ''What motivates you?'',
     py ''Do you have any questions for us?'']"

subsection \<open>_clean_list_from_text\<close>

text \<open>
  The \<^verbatim>\<open>while\<close> loop that removes leading numbering from one line. Nothing in the source
  bounds the number of rounds, so the loop is a partial function: \<open>None\<close> says that it
  never leaves the loop.
\<close>

definition MARKERS :: pystr where
  "MARKERS = py ''0123456789. )-*'' @ [9]"

partial_function (option) strip_markers :: "pystr \<Rightarrow> pystr option" where
  "strip_markers ln =
     (if ln \<noteq> [] \<and> (isdigit (hd ln) \<or> hd ln \<in> set (py ''-*''))
      then strip_markers (strip (lstrip MARKERS ln))
      else Some ln)"

declare strip_markers.simps [code]

text \<open>The \<^verbatim>\<open>for\<close> loop over the lines, \<open>cleaned\<close> being the list built so far.\<close>

fun clean_loop :: "pystr list \<Rightarrow> pystr list \<Rightarrow> pystr list option" where
  "clean_loop cleaned [] = Some cleaned"
| "clean_loop cleaned (ln # lns) =
     (case strip_markers ln of
        None \<Rightarrow> None
      | Some ln' \<Rightarrow> clean_loop (if ln' \<noteq> [] then cleaned @ [ln'] else cleaned) lns)"

definition nonblank_lines :: "pystr \<Rightarrow> pystr list" where
  "nonblank_lines text = map strip (filter (\<lambda>ln. strip ln \<noteq> []) (splitlines text))"

definition clean_list_from_text :: "pystr \<Rightarrow> pystr list option" where
  "clean_list_from_text text = clean_loop [] (nonblank_lines text)"

subsection \<open>generate_questions\<close>

definition questions_prompt :: "pystr \<Rightarrow> int \<Rightarrow> pystr" where
  "questions_prompt job_title n_questions =
     py ''You are an expert interview coach. Generate '' @ str_int n_questions @
     py '' clear, concise interview '' @
     py ''questions for a candidate applying for the role: '' @ [34] @ job_title @ [34] @
     py ''. '' @
     py ''Return a numbered list, one question per line. Do not add extra commentary.''"

text \<open>
  The result is a pair: the prompts sent to the backend during the call, in order, and
  the returned list (\<open>None\<close> when the call never returns).
\<close>

definition generate_questions ::
  "backend \<Rightarrow> pystr \<Rightarrow> int \<Rightarrow> pystr list \<times> pystr list option" where
  "generate_questions MODEL job_title n_questions =
     (if job_title = [] then ([], Some [py ''Please provide a job title.''])
      else case MODEL of
        NoModel \<Rightarrow> ([], Some (slice_to n_questions FALLBACK_QUESTIONS))
      | Model generate_content \<Rightarrow>
          (let prompt = questions_prompt job_title n_questions in
           case generate_content prompt of
             Raises e \<Rightarrow>
               ([prompt],
                Some ((py ''Error generating questions: '' @ e) #
                      slice_to (max 0 (n_questions - 1)) FALLBACK_QUESTIONS))
           | Returns resp_text \<Rightarrow>
               ([prompt],
                case clean_list_from_text
                       (strip (case resp_text of None \<Rightarrow> [] | Some t \<Rightarrow> t)) of
                  None \<Rightarrow> None
                | Some questions \<Rightarrow>
                    Some (if int (length questions) < n_questions
                          then slice_to n_questions
                                 (slice_to n_questions
                                    (questions @
                                     filter (\<lambda>q. q \<notin> set questions) FALLBACK_QUESTIONS))
                          else slice_to n_questions questions))))"

subsection \<open>get_feedback_on_answer\<close>

definition feedback_prompt :: "pystr \<Rightarrow> pystr \<Rightarrow> pystr" where
  "feedback_prompt question answer =
     [10] @
     py ''You are an interview coach giving feedback to a student. Use very simple, short sentences'' @ [10] @
     py ''(so a student can easily understand). The question is:'' @ [10] @
     question @ [10] @
     [10] @
     py ''The candidate'' @ [39] @ py ''s answer is:'' @ [10] @
     answer @ [10] @
     [10] @
     py ''Provide feedback as a short numbered list with these parts:'' @ [10] @
     py ''1) A short score out of 100.'' @ [10] @
     py ''2) Two short strengths (one sentence each).'' @ [10] @
     py ''3) Three short, actionable improvements (one sentence each).'' @ [10] @
     py ''4) A single short model answer (1-2 sentences).'' @ [10] @
     [10] @
     py ''Use plain, easy words. Keep each item concise (<= 20 words). Return only the numbered list, one item per line.'' @ [10]"

text \<open>The result is again the prompts sent to the backend and the returned string.\<close>

definition get_feedback_on_answer :: "backend \<Rightarrow> pystr \<Rightarrow> pystr \<Rightarrow> pystr list \<times> pystr" where
  "get_feedback_on_answer MODEL question answer =
     (if answer = [] \<or> strip answer = [] then
        ([], py ''No answer provided. Please write your response before requesting feedback.'')
      else case MODEL of
        NoModel \<Rightarrow>
          (let ans_len = length (strip answer) in
           ([], join [10]
             (if ans_len < 30 then
                [py ''1) Score: 40/100'',
                 py ''2) Strength: You tried to answer quickly.'',
                 py ''3) Improve: Add one concrete example (what you did).'',
                 py ''4) Improve: Add the result (what changed because of your action).'',
                 py ''5) Model answer (example): I led X project where I did Y and achieved Z.'']
              else
                [py ''1) Score: 75/100'',
                 py ''2) Strength: Clear structure and some example included.'',
                 py ''3) Improve: Be more specific about numbers or results.'',
                 py ''4) Improve: Add one short sentence about learning from the experience.'',
                 py ''5) Model answer (example): I improved X by doing Y which increased Z by 20%.''])))
      | Model generate_content \<Rightarrow>
          (let prompt = feedback_prompt question answer in
           case generate_content prompt of
             Raises e \<Rightarrow> ([prompt], py ''Error generating feedback: '' @ e)
           | Returns resp_text \<Rightarrow>
               (let lines = nonblank_lines (strip (case resp_text of None \<Rightarrow> [] | Some t \<Rightarrow> t)) in
                ([prompt],
                 if lines = [] then py ''No feedback returned. Try again.''
                 else join [10] lines))))"

subsection \<open>InterviewSession\<close>

record InterviewSession =
  self_job_title :: pystr
  self_n_questions :: int
  self_questions :: "pystr list"
  self_index :: int

text \<open>
  \<^verbatim>\<open>__init__\<close> generates the questions once; it returns no session when
  \<^verbatim>\<open>generate_questions\<close> does not return.
\<close>

definition InterviewSession_init :: "backend \<Rightarrow> pystr \<Rightarrow> int \<Rightarrow> InterviewSession option" where
  "InterviewSession_init MODEL job_title n_questions =
     (let n = max 1 n_questions in
      case snd (generate_questions MODEL job_title n) of
        None \<Rightarrow> None
      | Some qs \<Rightarrow>
          Some \<lparr>self_job_title = job_title, self_n_questions = n,
                self_questions = qs, self_index = 0\<rparr>)"

definition next_question :: "InterviewSession \<Rightarrow> error + (pystr option \<times> InterviewSession)" where
  "next_question s =
     (if int (length (self_questions s)) \<le> self_index s then Inr (None, s)
      else case getitem (self_questions s) (self_index s) of
        Inl e \<Rightarrow> Inl e
      | Inr q \<Rightarrow>
          (let s' = s\<lparr>self_index := self_index s + 1\<rparr> in
           Inr (Some (py ''Question '' @ str_int (self_index s') @ py '': '' @ q), s')))"

definition peek_current :: "InterviewSession \<Rightarrow> error + pystr option" where
  "peek_current s =
     (if self_index s = 0 then Inr None
      else let idx = self_index s - 1 in
        case getitem (self_questions s) idx of
          Inl e \<Rightarrow> Inl e
        | Inr q \<Rightarrow> Inr (Some (py ''Question '' @ str_int (idx + 1) @ py '': '' @ q)))"

definition has_next :: "InterviewSession \<Rightarrow> bool" where
  "has_next s \<longleftrightarrow> self_index s < int (length (self_questions s))"

definition reset :: "InterviewSession \<Rightarrow> InterviewSession" where
  "reset s = s\<lparr>self_index := 0\<rparr>"

definition all_questions :: "InterviewSession \<Rightarrow> pystr list" where
  "all_questions s = self_questions s"

subsection \<open>Sequences of calls on a session\<close>

text \<open>
  The five operations of a session and the value each call returns. \<open>call\<close> gives the
  returned value and the session after the call: \<^verbatim>\<open>peek_current\<close>, \<^verbatim>\<open>has_next\<close> and
  \<^verbatim>\<open>all_questions\<close> assign to no attribute, so they leave the session as it is.
\<close>

datatype operation = Next | Peek | HasNext | Reset | AllQuestions

datatype pyval = PyNone | PyStr pystr | PyBool bool | PyList "pystr list"

definition of_optional :: "pystr option \<Rightarrow> pyval" where
  "of_optional r = (case r of None \<Rightarrow> PyNone | Some q \<Rightarrow> PyStr q)"

fun call :: "operation \<Rightarrow> InterviewSession \<Rightarrow> error + (pyval \<times> InterviewSession)" where
  "call Next s =
     (case next_question s of Inl e \<Rightarrow> Inl e | Inr (r, s') \<Rightarrow> Inr (of_optional r, s'))"
| "call Peek s =
     (case peek_current s of Inl e \<Rightarrow> Inl e | Inr r \<Rightarrow> Inr (of_optional r, s))"
| "call HasNext s = Inr (PyBool (has_next s), s)"
| "call Reset s = Inr (PyNone, reset s)"
| "call AllQuestions s = Inr (PyList (all_questions s), s)"

text \<open>A sequence of calls stops at the first one that raises.\<close>

fun run :: "operation list \<Rightarrow> InterviewSession \<Rightarrow> error + InterviewSession" where
  "run [] s = Inr s"
| "run (m # ms) s = (case call m s of Inl e \<Rightarrow> Inl e | Inr (v, s') \<Rightarrow> run ms s')"

text \<open>The invariant of the cursor.\<close>

definition session_inv :: "InterviewSession \<Rightarrow> bool" where
  "session_inv s \<longleftrightarrow> 0 \<le> self_index s \<and> self_index s \<le> int (length (self_questions s))"

text \<open>
  A history variable beside the session: the question that \<^verbatim>\<open>next_question\<close> returned
  last since the session was constructed or last reset, if there is one. \<open>track\<close> updates
  it from a call and the value that call returned.
\<close>

fun track :: "operation \<Rightarrow> pyval \<Rightarrow> pystr option \<Rightarrow> pystr option" where
  "track Next (PyStr q) shown = Some q"
| "track Reset v shown = None"
| "track m v shown = shown"

fun run_tracking ::
  "operation list \<Rightarrow> InterviewSession \<times> pystr option \<Rightarrow> error + (InterviewSession \<times> pystr option)" where
  "run_tracking [] st = Inr st"
| "run_tracking (m # ms) (s, shown) =
     (case call m s of
        Inl e \<Rightarrow> Inl e
      | Inr (v, s') \<Rightarrow> run_tracking ms (s', track m v shown))"

section \<open>Basic facts\<close>

lemma length_FALLBACK_QUESTIONS: "length FALLBACK_QUESTIONS = 10"
  by (simp add: FALLBACK_QUESTIONS_def)

lemma FALLBACK_QUESTIONS_nonempty: "[] \<notin> set FALLBACK_QUESTIONS"
  by (simp add: FALLBACK_QUESTIONS_def py_def)

lemma generate_questions_NoModel:
  "job_title \<noteq> [] \<Longrightarrow>
   generate_questions NoModel job_title n = ([], Some (slice_to n FALLBACK_QUESTIONS))"
  by (simp add: generate_questions_def)

lemma slice_to_nonneg: "0 \<le> n \<Longrightarrow> slice_to n xs = take (nat n) xs"
  by (simp add: slice_to_def)

section \<open>Fallback questions\<close>

text \<open>
  Claim C1. With no backend configured, a non-empty job title and \<open>1 \<le> N \<le> 10\<close>,
  \<^verbatim>\<open>generate_questions\<close> sends nothing to a backend and returns the first \<open>N\<close> entries
  of the fallback list in their order: \<open>N\<close> strings, none of them empty, the same list
  whatever the (non-empty) title is. A session for the title "Data Scientist" with
  \<open>n_questions = 3\<close> has \<^verbatim>\<open>all_questions()\<close> equal to the first three fallback entries.
\<close>

theorem C1_fallback_first_n:
  assumes "job_title \<noteq> []" and "1 \<le> N" and "N \<le> 10"
  shows "generate_questions NoModel job_title N = ([], Some (take (nat N) FALLBACK_QUESTIONS))
       \<and> length (take (nat N) FALLBACK_QUESTIONS) = nat N
       \<and> [] \<notin> set (take (nat N) FALLBACK_QUESTIONS)
       \<and> (\<forall>other_title. other_title \<noteq> [] \<longrightarrow>
            generate_questions NoModel other_title N = generate_questions NoModel job_title N)
       \<and> map_option all_questions (InterviewSession_init NoModel (py ''Data Scientist'') 3)
           = Some (take 3 FALLBACK_QUESTIONS)"
proof -
  have n: "0 \<le> N" using assms by simp
  have a: "generate_questions NoModel job_title N = ([], Some (take (nat N) FALLBACK_QUESTIONS))"
    using assms(1) n by (simp add: generate_questions_NoModel slice_to_nonneg)
  have b: "length (take (nat N) FALLBACK_QUESTIONS) = nat N"
    using assms by (simp add: length_FALLBACK_QUESTIONS)
  have c: "[] \<notin> set (take (nat N) FALLBACK_QUESTIONS)"
    using FALLBACK_QUESTIONS_nonempty by (auto dest: in_set_takeD)
  have d: "\<forall>other_title. other_title \<noteq> [] \<longrightarrow>
            generate_questions NoModel other_title N = generate_questions NoModel job_title N"
    using assms(1) by (simp add: generate_questions_NoModel)
  have "py ''Data Scientist'' \<noteq> []" by (simp add: py_def)
  then have e: "map_option all_questions (InterviewSession_init NoModel (py ''Data Scientist'') 3)
           = Some (take 3 FALLBACK_QUESTIONS)"
    by (simp add: InterviewSession_init_def generate_questions_NoModel slice_to_nonneg
        all_questions_def)
  from a b c d e show ?thesis by blast
qed

theorem C1_fallback_first_n_witness:
  "py ''Data Scientist'' \<noteq> [] \<and> (1::int) \<le> 3 \<and> (3::int) \<le> 10 \<and>
   generate_questions NoModel (py ''Data Scientist'') 3 =
     ([], Some [py ''Why should we hire you?'', py ''Tell me about yourself.'',
                py ''What are your strengths?''])"
proof -
  have h: "py ''Data Scientist'' \<noteq> []" by (simp add: py_def)
  have t: "take (nat 3) FALLBACK_QUESTIONS =
      [py ''Why should we hire you?'', py ''Tell me about yourself.'',
       py ''What are your strengths?'']"
    by (simp add: FALLBACK_QUESTIONS_def)
  show ?thesis
    using h t C1_fallback_first_n [of "py ''Data Scientist''" 3] by simp
qed

section \<open>Heuristic feedback\<close>

lemma strip_eq_Nil_iff: "strip s = [] \<longleftrightarrow> list_all isspace s"
proof (cases "dropWhile isspace s")
  case Nil
  then have "\<forall>c\<in>set s. isspace c"
    by (simp add: dropWhile_eq_Nil_conv)
  then show ?thesis
    unfolding strip_def Nil by (simp add: list_all_iff)
next
  case (Cons a as)
  then have "\<not> isspace a"
    using hd_dropWhile [of isspace s] by simp
  moreover have "a \<in> set s"
    using Cons set_dropWhileD [of a isspace s] by simp
  ultimately show ?thesis
    using Cons by (auto simp: strip_def list_all_iff dropWhile_eq_Nil_conv)
qed

lemma low_block_lines:
  "splitlines (join [10]
     [py ''1) Score: 40/100'',
      py ''2) Strength: You tried to answer quickly.'',
      py ''3) Improve: Add one concrete example (what you did).'',
      py ''4) Improve: Add the result (what changed because of your action).'',
      py ''5) Model answer (example): I led X project where I did Y and achieved Z.'']) =
     [py ''1) Score: 40/100'',
      py ''2) Strength: You tried to answer quickly.'',
      py ''3) Improve: Add one concrete example (what you did).'',
      py ''4) Improve: Add the result (what changed because of your action).'',
      py ''5) Model answer (example): I led X project where I did Y and achieved Z.'']"
  by (simp add: splitlines_def py_def is_linebreak_def)

lemma high_block_lines:
  "splitlines (join [10]
     [py ''1) Score: 75/100'',
      py ''2) Strength: Clear structure and some example included.'',
      py ''3) Improve: Be more specific about numbers or results.'',
      py ''4) Improve: Add one short sentence about learning from the experience.'',
      py ''5) Model answer (example): I improved X by doing Y which increased Z by 20%.'']) =
     [py ''1) Score: 75/100'',
      py ''2) Strength: Clear structure and some example included.'',
      py ''3) Improve: Be more specific about numbers or results.'',
      py ''4) Improve: Add one short sentence about learning from the experience.'',
      py ''5) Model answer (example): I improved X by doing Y which increased Z by 20%.'']"
  by (simp add: splitlines_def py_def is_linebreak_def)

lemma numbered_low:
  "i < 5 \<Longrightarrow> prefix (str_int (int i + 1) @ py '')'')
     ([py ''1) Score: 40/100'',
      py ''2) Strength: You tried to answer quickly.'',
      py ''3) Improve: Add one concrete example (what you did).'',
      py ''4) Improve: Add the result (what changed because of your action).'',
      py ''5) Model answer (example): I led X project where I did Y and achieved Z.''] ! i)"
proof -
  assume "i < 5"
  then consider "i = 0" | "i = 1" | "i = 2" | "i = 3" | "i = 4" by linarith
  then show ?thesis
    by cases (simp_all add: str_int_def str_nat.simps py_def)
qed


lemma numbered_high:
  "i < 5 \<Longrightarrow> prefix (str_int (int i + 1) @ py '')'')
     ([py ''1) Score: 75/100'',
               py ''2) Strength: Clear structure and some example included.'',
               py ''3) Improve: Be more specific about numbers or results.'',
               py ''4) Improve: Add one short sentence about learning from the experience.'',
               py ''5) Model answer (example): I improved X by doing Y which increased Z by 20%.''] ! i)"
proof -
  assume "i < 5"
  then consider "i = 0" | "i = 1" | "i = 2" | "i = 3" | "i = 4" by linarith
  then show ?thesis
    by cases (simp_all add: str_int_def str_nat.simps py_def)
qed

text \<open>
  Claim C2, amended. With no backend configured and an answer that is neither empty nor
  made of whitespace only, \<^verbatim>\<open>get_feedback_on_answer\<close> sends nothing to a backend and
  decides on the length of the answer after \<^verbatim>\<open>strip()\<close>, not on the length of the answer
  as given: below 30 it returns the fixed "40/100" block, from 30 on the fixed "75/100"
  block. Either block is five lines joined by newlines, line \<open>i\<close> beginning with the
  number \<open>i\<close> and a closing parenthesis.
\<close>

theorem C2_heuristic_feedback:
  assumes "answer \<noteq> []" and "\<not> list_all isspace answer"
  shows "\<exists>lines.
           get_feedback_on_answer NoModel question answer = ([], join [10] lines)
         \<and> splitlines (join [10] lines) = lines
         \<and> length lines = 5
         \<and> (\<forall>i<5. prefix (str_int (int i + 1) @ py '')'') (lines ! i))
         \<and> (length (strip answer) < 30 \<longrightarrow> lines =
              [py ''1) Score: 40/100'',
               py ''2) Strength: You tried to answer quickly.'',
               py ''3) Improve: Add one concrete example (what you did).'',
               py ''4) Improve: Add the result (what changed because of your action).'',
               py ''5) Model answer (example): I led X project where I did Y and achieved Z.''])
         \<and> (30 \<le> length (strip answer) \<longrightarrow> lines =
              [py ''1) Score: 75/100'',
               py ''2) Strength: Clear structure and some example included.'',
               py ''3) Improve: Be more specific about numbers or results.'',
               py ''4) Improve: Add one short sentence about learning from the experience.'',
               py ''5) Model answer (example): I improved X by doing Y which increased Z by 20%.''])"
proof -
  have ne: "strip answer \<noteq> []"
    using assms(2) by (simp add: strip_eq_Nil_iff)
  show ?thesis
  proof (cases "length (strip answer) < 30")
    case True
    then have "get_feedback_on_answer NoModel question answer = ([], join [10]
              [py ''1) Score: 40/100'',
               py ''2) Strength: You tried to answer quickly.'',
               py ''3) Improve: Add one concrete example (what you did).'',
               py ''4) Improve: Add the result (what changed because of your action).'',
               py ''5) Model answer (example): I led X project where I did Y and achieved Z.''])"
      using assms(1) ne by (simp add: get_feedback_on_answer_def)
    then show ?thesis
      using True low_block_lines numbered_low by (intro exI conjI) (assumption | simp)+
  next
    case False
    then have "get_feedback_on_answer NoModel question answer = ([], join [10]
              [py ''1) Score: 75/100'',
               py ''2) Strength: Clear structure and some example included.'',
               py ''3) Improve: Be more specific about numbers or results.'',
               py ''4) Improve: Add one short sentence about learning from the experience.'',
               py ''5) Model answer (example): I improved X by doing Y which increased Z by 20%.''])"
      using assms(1) ne by (simp add: get_feedback_on_answer_def)
    then show ?thesis
      using False high_block_lines numbered_high by (intro exI conjI) (assumption | simp)+
  qed
qed


theorem C2_heuristic_feedback_witness:
  "py ''I led a project and solved tasks.'' \<noteq> []
   \<and> \<not> list_all isspace (py ''I led a project and solved tasks.'')
   \<and> length (strip (py ''I led a project and solved tasks.'')) = 33
   \<and> get_feedback_on_answer NoModel (py ''Tell me about yourself.'')
         (py ''I led a project and solved tasks.'') =
       ([], join [10]
              [py ''1) Score: 75/100'',
               py ''2) Strength: Clear structure and some example included.'',
               py ''3) Improve: Be more specific about numbers or results.'',
               py ''4) Improve: Add one short sentence about learning from the experience.'',
               py ''5) Model answer (example): I improved X by doing Y which increased Z by 20%.''])"
proof -
  have a: "py ''I led a project and solved tasks.'' \<noteq> []"
    by (simp add: py_def)
  have b: "\<not> list_all isspace (py ''I led a project and solved tasks.'')"
    by (simp add: py_def isspace_def)
  have c: "length (strip (py ''I led a project and solved tasks.'')) = 33"
    by (simp add: py_def strip_def isspace_def)
  show ?thesis
    using a b c
      C2_heuristic_feedback [OF a b, of "py ''Tell me about yourself.''"]
    by auto
qed

text \<open>
  The claim as written measures the answer itself. An answer of 16 characters followed by
  20 spaces has length 36, yet it receives the "40/100" block.
\<close>

theorem C2_padded_answer_counterexample:
  "30 \<le> length (py ''I led a project.'' @ replicate 20 32)
   \<and> \<not> list_all isspace (py ''I led a project.'' @ replicate 20 32)
   \<and> snd (get_feedback_on_answer NoModel (py ''Tell me about yourself.'')
           (py ''I led a project.'' @ replicate 20 32)) =
       join [10]
              [py ''1) Score: 40/100'',
               py ''2) Strength: You tried to answer quickly.'',
               py ''3) Improve: Add one concrete example (what you did).'',
               py ''4) Improve: Add the result (what changed because of your action).'',
               py ''5) Model answer (example): I led X project where I did Y and achieved Z.'']"
proof -
  have "replicate 20 (32::nat) = [32,32,32,32,32,32,32,32,32,32,32,32,32,32,32,32,32,32,32,32]"
    by (simp add: numeral_eq_Suc)
  then show ?thesis
    by (simp add: get_feedback_on_answer_def py_def strip_def isspace_def)
qed

section \<open>Stepping through a session\<close>

lemma getitem_in_range:
  "0 \<le> i \<Longrightarrow> i < int (length xs) \<Longrightarrow> getitem xs i = Inr (xs ! nat i)"
  by (simp add: getitem_def)

lemma next_question_some:
  assumes "0 \<le> self_index s" and "self_index s < int (length (self_questions s))"
  shows "next_question s =
           Inr (Some (py ''Question '' @ str_int (self_index s + 1) @ py '': '' @
                      self_questions s ! nat (self_index s)),
                s\<lparr>self_index := self_index s + 1\<rparr>)"
  using assms by (simp add: next_question_def getitem_in_range Let_def)

lemma next_question_none:
  "int (length (self_questions s)) \<le> self_index s \<Longrightarrow> next_question s = Inr (None, s)"
  by (simp add: next_question_def)

lemma first_five_fallback:
  "take 5 FALLBACK_QUESTIONS =
     [py ''Why should we hire you?'', py ''Tell me about yourself.'',
      py ''What are your strengths?'', py ''What are your weaknesses?'',
      py ''Where do you see yourself in 5 years?'']"
  by (simp add: FALLBACK_QUESTIONS_def)

text \<open>
  Claim C3. A session for a non-empty job title with \<open>n_questions = 5\<close> and no backend
  holds the first five fallback questions. Its first five calls of \<^verbatim>\<open>next_question\<close>
  return them labelled "Question 1: " to "Question 5: ", five different strings, each
  call moving the cursor on by one; the sixth call returns \<^verbatim>\<open>None\<close> without raising and
  leaves the session as it is. \<^verbatim>\<open>has_next\<close> is true before each of the five calls and
  false after the fifth.
\<close>

theorem C3_five_questions:
  assumes "job_title \<noteq> []"
  shows "\<exists>s0 s1 s2 s3 s4 s5.
      InterviewSession_init NoModel job_title 5 = Some s0
    \<and> self_index s0 = 0 \<and> has_next s0
    \<and> next_question s0 = Inr (Some (py ''Question 1: Why should we hire you?''), s1)
    \<and> self_index s1 = 1 \<and> has_next s1
    \<and> next_question s1 = Inr (Some (py ''Question 2: Tell me about yourself.''), s2)
    \<and> self_index s2 = 2 \<and> has_next s2
    \<and> next_question s2 = Inr (Some (py ''Question 3: What are your strengths?''), s3)
    \<and> self_index s3 = 3 \<and> has_next s3
    \<and> next_question s3 = Inr (Some (py ''Question 4: What are your weaknesses?''), s4)
    \<and> self_index s4 = 4 \<and> has_next s4
    \<and> next_question s4 =
          Inr (Some (py ''Question 5: Where do you see yourself in 5 years?''), s5)
    \<and> self_index s5 = 5 \<and> \<not> has_next s5
    \<and> next_question s5 = Inr (None, s5)
    \<and> distinct [py ''Question 1: Why should we hire you?'',
                 py ''Question 2: Tell me about yourself.'',
                 py ''Question 3: What are your strengths?'',
                 py ''Question 4: What are your weaknesses?'',
                 py ''Question 5: Where do you see yourself in 5 years?'']"
proof -
  define S where "S i = \<lparr>self_job_title = job_title, self_n_questions = 5,
      self_questions = take 5 FALLBACK_QUESTIONS, self_index = i\<rparr>" for i :: int
  have len: "length (self_questions (S i)) = 5" for i
    by (simp add: S_def length_FALLBACK_QUESTIONS)
  have idx: "self_index (S i) = i" for i
    by (simp add: S_def)
  have upd: "(S i)\<lparr>self_index := j\<rparr> = S j" for i j
    by (simp add: S_def)
  have init: "InterviewSession_init NoModel job_title 5 = Some (S 0)"
    using assms
    by (simp add: InterviewSession_init_def generate_questions_NoModel slice_to_nonneg S_def)
  have hn: "has_next (S i) \<longleftrightarrow> i < 5" for i
    by (simp add: has_next_def len idx)
  have step: "next_question (S i) =
      Inr (Some (py ''Question '' @ str_int (i + 1) @ py '': '' @
                 take 5 FALLBACK_QUESTIONS ! nat i), S (i + 1))"
    if "0 \<le> i" "i < 5" for i
    using that next_question_some [of "S i"] by (simp add: len idx upd) (simp add: S_def)
  have n1: "next_question (S 0) = Inr (Some (py ''Question 1: Why should we hire you?''), S 1)"
    using step [of 0] by (simp add: first_five_fallback py_def str_int_def str_nat.simps)
  have n2: "next_question (S 1) = Inr (Some (py ''Question 2: Tell me about yourself.''), S 2)"
    using step [of 1] by (simp add: first_five_fallback py_def str_int_def str_nat.simps)
  have n3: "next_question (S 2) = Inr (Some (py ''Question 3: What are your strengths?''), S 3)"
    using step [of 2] by (simp add: first_five_fallback py_def str_int_def str_nat.simps)
  have n4: "next_question (S 3) = Inr (Some (py ''Question 4: What are your weaknesses?''), S 4)"
    using step [of 3] by (simp add: first_five_fallback py_def str_int_def str_nat.simps)
  have n5: "next_question (S 4) =
      Inr (Some (py ''Question 5: Where do you see yourself in 5 years?''), S 5)"
    using step [of 4] by (simp add: first_five_fallback py_def str_int_def str_nat.simps)
  have n6: "next_question (S 5) = Inr (None, S 5)"
    by (rule next_question_none) (simp add: len idx)
  have d: "distinct [py ''Question 1: Why should we hire you?'',
                 py ''Question 2: Tell me about yourself.'',
                 py ''Question 3: What are your strengths?'',
                 py ''Question 4: What are your weaknesses?'',
                 py ''Question 5: Where do you see yourself in 5 years?'']"
    by (simp add: py_def)
  show ?thesis
    apply (rule exI [of _ "S 0"], rule exI [of _ "S 1"], rule exI [of _ "S 2"])
    apply (rule exI [of _ "S 3"], rule exI [of _ "S 4"], rule exI [of _ "S 5"])
    using init n1 n2 n3 n4 n5 n6 d by (simp add: hn idx)
qed

theorem C3_five_questions_witness:
  "py ''Backend Engineer'' \<noteq> [] \<and>
   (\<exists>s0 s1. InterviewSession_init NoModel (py ''Backend Engineer'') 5 = Some s0
     \<and> next_question s0 = Inr (Some (py ''Question 1: Why should we hire you?''), s1)
     \<and> self_index s1 = 1)"
proof -
  have h: "py ''Backend Engineer'' \<noteq> []" by (simp add: py_def)
  from C3_five_questions [OF h] show ?thesis using h by blast
qed

section \<open>The line parser\<close>

lemma rstrip_keeps_head:
  assumes "t \<noteq> []" and "\<not> P (hd t)"
  shows "rev (dropWhile P (rev t)) \<noteq> [] \<and> hd (rev (dropWhile P (rev t))) = hd t"
  using assms
  by (metis Nil_is_rev_conv dropWhile_eq_Nil_conv dropWhile_last hd_rev
      last_rev list.set_sel(1) set_rev)

lemma hd_strip_not_space:
  assumes "strip s \<noteq> []"
  shows "\<not> isspace (hd (strip s))"
proof -
  have t: "dropWhile isspace s \<noteq> []"
    using assms unfolding strip_def by (auto simp del: dropWhile_eq_Nil_conv)
  then have "\<not> isspace (hd (dropWhile isspace s))"
    by (rule hd_dropWhile)
  with t show ?thesis
    unfolding strip_def using rstrip_keeps_head [of "dropWhile isspace s" isspace] by simp
qed

lemma length_strip_le: "length (strip s) \<le> length s"
proof -
  have "length (strip s) \<le> length (dropWhile isspace s)"
    unfolding strip_def using length_dropWhile_le [of isspace "rev (dropWhile isspace s)"]
    by simp
  also have "\<dots> \<le> length s" by (rule length_dropWhile_le)
  finally show ?thesis .
qed

lemma set_strip_subset: "set (strip s) \<subseteq> set s"
  unfolding strip_def by (auto dest!: set_dropWhileD)

lemma last_dropWhile_nonempty:
  "dropWhile P s \<noteq> [] \<Longrightarrow> last (dropWhile P s) = last s"
  by (induction s) (auto split: if_splits)

lemma suffix_dropWhile: "suffix (dropWhile P s) s"
  by (metis suffixI takeWhile_dropWhile_id)

lemma strip_no_trailing:
  assumes "s = [] \<or> \<not> isspace (last s)"
  shows "strip s = dropWhile isspace s"
proof (cases "dropWhile isspace s = []")
  case True
  then show ?thesis by (simp add: strip_def del: dropWhile_eq_Nil_conv)
next
  case False
  then have "last (dropWhile isspace s) = last s" "s \<noteq> []"
    by (auto simp: last_dropWhile_nonempty simp del: dropWhile_eq_Nil_conv)
  with assms False have "\<not> isspace (hd (rev (dropWhile isspace s)))"
    by (simp add: hd_rev del: dropWhile_eq_Nil_conv)
  then have "dropWhile isspace (rev (dropWhile isspace s)) = rev (dropWhile isspace s)"
    using False by (cases "rev (dropWhile isspace s)") (auto simp del: dropWhile_eq_Nil_conv)
  then show ?thesis by (simp add: strip_def)
qed

lemma last_strip_not_space:
  assumes "strip s \<noteq> []"
  shows "\<not> isspace (last (strip s))"
proof -
  have "dropWhile isspace (rev (dropWhile isspace s)) \<noteq> []"
    using assms unfolding strip_def by simp
  then have "\<not> isspace (hd (dropWhile isspace (rev (dropWhile isspace s))))"
    by (rule hd_dropWhile)
  then show ?thesis
    unfolding strip_def by (simp add: last_rev)
qed

text \<open>One round of the loop on a line without trailing whitespace yields a suffix.\<close>

lemma round_suffix:
  assumes "ln = [] \<or> \<not> isspace (last ln)"
  shows "suffix (strip (lstrip MARKERS ln)) ln"
    and "strip (lstrip MARKERS ln) = [] \<or> \<not> isspace (last (strip (lstrip MARKERS ln)))"
proof -
  let ?m = "lstrip MARKERS ln"
  have m: "suffix ?m ln" unfolding lstrip_def by (rule suffix_dropWhile)
  have "?m = [] \<or> \<not> isspace (last ?m)"
    using assms unfolding lstrip_def
    by (cases "dropWhile (\<lambda>c. c \<in> set MARKERS) ln = []")
       (auto simp: last_dropWhile_nonempty simp del: dropWhile_eq_Nil_conv)
  then have "strip ?m = dropWhile isspace ?m" by (rule strip_no_trailing)
  then have "suffix (strip ?m) ?m" by (simp add: suffix_dropWhile)
  with m show "suffix (strip ?m) ln" using suffix_order.trans by blast
  show "strip ?m = [] \<or> \<not> isspace (last (strip ?m))"
    using last_strip_not_space by blast
qed


lemma strip_markers_stop:
  "\<not> (ln \<noteq> [] \<and> (isdigit (hd ln) \<or> hd ln \<in> set (py ''-*''))) \<Longrightarrow> strip_markers ln = Some ln"
  by (subst strip_markers.simps) auto

lemma strip_markers_round:
  "ln \<noteq> [] \<Longrightarrow> isdigit (hd ln) \<or> hd ln \<in> set (py ''-*'') \<Longrightarrow>
   strip_markers ln = strip_markers (strip (lstrip MARKERS ln))"
  by (subst strip_markers.simps) simp

lemma strip_markers_head:
  assumes "strip_markers ln = Some r"
  shows "r = [] \<or> (\<not> isdigit (hd r) \<and> hd r \<notin> set (py ''-*''))"
  by (rule strip_markers.raw_induct
        [where P = "\<lambda>ln r. r = [] \<or> (\<not> isdigit (hd r) \<and> hd r \<notin> set (py ''-*''))",
         OF _ assms])
     (auto split: if_splits)

lemma strip_markers_suffix:
  assumes "strip_markers ln = Some r"
    and "ln = [] \<or> \<not> isspace (hd ln)" and "ln = [] \<or> \<not> isspace (last ln)"
  shows "suffix r ln \<and> (r = [] \<or> \<not> isspace (hd r))"
proof -
  let ?P = "\<lambda>ln r. (ln = [] \<or> \<not> isspace (hd ln)) \<longrightarrow> (ln = [] \<or> \<not> isspace (last ln)) \<longrightarrow>
      suffix r ln \<and> (r = [] \<or> \<not> isspace (hd r))"
  have "?P ln r"
  proof (rule strip_markers.raw_induct [where P = ?P, OF _ assms(1)])
    fix f :: "pystr \<Rightarrow> pystr option" and ln r
    assume IH: "\<And>ln r. f ln = Some r \<Longrightarrow> ?P ln r"
      and F: "(if ln \<noteq> [] \<and> (isdigit (hd ln) \<or> hd ln \<in> set (py ''-*''))
               then f (strip (lstrip MARKERS ln)) else Some ln) = Some r"
    show "?P ln r"
    proof (intro impI)
      assume h: "ln = [] \<or> \<not> isspace (hd ln)" and l: "ln = [] \<or> \<not> isspace (last ln)"
      show "suffix r ln \<and> (r = [] \<or> \<not> isspace (hd r))"
      proof (cases "ln \<noteq> [] \<and> (isdigit (hd ln) \<or> hd ln \<in> set (py ''-*''))")
        case True
        let ?n = "strip (lstrip MARKERS ln)"
        from True F have "f ?n = Some r" by simp
        moreover have "?n = [] \<or> \<not> isspace (hd ?n)"
          using hd_strip_not_space by blast
        moreover have "?n = [] \<or> \<not> isspace (last ?n)"
          using round_suffix(2) [OF l] .
        ultimately have "suffix r ?n \<and> (r = [] \<or> \<not> isspace (hd r))"
          using IH by blast
        moreover have "suffix ?n ln" using round_suffix(1) [OF l] .
        ultimately show ?thesis using suffix_order.trans by blast
      next
        case False
        with F have "r = ln" by (simp split: if_splits)
        with h show ?thesis by simp
      qed
    qed
  qed
  with assms(2,3) show ?thesis by blast
qed

lemma bullets_in_MARKERS: "set (py ''-*'') \<subseteq> set MARKERS"
  by (simp add: MARKERS_def py_def)

lemma set_splitlines_from:
  "ln \<in> set (splitlines_from cur s) \<Longrightarrow> set ln \<subseteq> set cur \<union> set s"
proof (induction cur s rule: splitlines_from.induct)
  case (1 cur)
  then show ?case by (simp split: if_splits)
next
  case (2 cur c cs)
  show ?case
  proof (cases "is_linebreak c")
    case False
    with 2 show ?thesis by auto
  next
    case True
    show ?thesis
    proof (cases cs)
      case Nil
      with True 2 show ?thesis by auto
    next
      case (Cons d ds)
      show ?thesis
      proof (cases "c = 13 \<and> d = 10")
        case t: True
        with True Cons 2(1) [OF True Cons t] 2(4) show ?thesis by auto
      next
        case f: False
        with True Cons 2(2) [OF True Cons f] 2(4) show ?thesis by auto
      qed
    qed
  qed
qed

lemma nonblank_lines_props:
  assumes "ln \<in> set (nonblank_lines text)"
  shows "ln \<noteq> []" and "\<not> isspace (hd ln)" and "\<not> isspace (last ln)"
    and "set ln \<subseteq> set text"
proof -
  from assms obtain x where x: "x \<in> set (splitlines text)" "strip x \<noteq> []" "ln = strip x"
    by (auto simp: nonblank_lines_def)
  then show "ln \<noteq> []" by simp
  show "\<not> isspace (hd ln)" using x hd_strip_not_space by simp
  show "\<not> isspace (last ln)" using x last_strip_not_space by simp
  have "set x \<subseteq> set text"
    using x(1) set_splitlines_from [of x "[]" "text"] by (simp add: splitlines_def)
  then show "set ln \<subseteq> set text"
    using set_strip_subset [of x] x(3) by blast
qed

lemma clean_loop_returns:
  assumes "\<forall>ln\<in>set lns. \<exists>r. strip_markers ln = Some r"
  shows "\<exists>rest. list_all2 (\<lambda>ln r. strip_markers ln = Some r) lns rest \<and>
           clean_loop cleaned lns = Some (cleaned @ filter (\<lambda>r. r \<noteq> []) rest)"
  using assms
proof (induction lns arbitrary: cleaned)
  case Nil
  then show ?case by simp
next
  case (Cons ln lns)
  then obtain r where r: "strip_markers ln = Some r" by auto
  from Cons obtain rest where rest:
    "list_all2 (\<lambda>ln r. strip_markers ln = Some r) lns rest"
    "clean_loop (if r \<noteq> [] then cleaned @ [r] else cleaned) lns =
       Some ((if r \<noteq> [] then cleaned @ [r] else cleaned) @ filter (\<lambda>r. r \<noteq> []) rest)"
    by (metis list.set_intros(2))
  have "clean_loop cleaned (ln # lns) =
      Some (cleaned @ filter (\<lambda>r. r \<noteq> []) (r # rest))"
    using r rest(2) by simp
  moreover have "list_all2 (\<lambda>ln r. strip_markers ln = Some r) (ln # lns) (r # rest)"
    using r rest(1) by simp
  ultimately show ?case by blast
qed


lemma round_prefix:
  assumes "ln = [] \<or> \<not> isspace (last ln)"
  shows "\<exists>p. ln = p @ strip (lstrip MARKERS ln) \<and> set p \<subseteq> set MARKERS \<union> {c. isspace c}"
proof -
  let ?m = "lstrip MARKERS ln"
  have "?m = [] \<or> \<not> isspace (last ?m)"
    using assms unfolding lstrip_def
    by (cases "dropWhile (\<lambda>c. c \<in> set MARKERS) ln = []")
       (auto simp: last_dropWhile_nonempty simp del: dropWhile_eq_Nil_conv)
  then have s: "strip ?m = dropWhile isspace ?m" by (rule strip_no_trailing)
  have "ln = takeWhile (\<lambda>c. c \<in> set MARKERS) ln @ ?m"
    by (simp add: lstrip_def)
  moreover have "?m = takeWhile isspace ?m @ strip ?m"
    by (simp add: s)
  ultimately have "ln = (takeWhile (\<lambda>c. c \<in> set MARKERS) ln @ takeWhile isspace ?m) @ strip ?m"
    by (metis append.assoc)
  moreover have "set (takeWhile (\<lambda>c. c \<in> set MARKERS) ln @ takeWhile isspace ?m)
      \<subseteq> set MARKERS \<union> {c. isspace c}"
    by (auto dest: set_takeWhileD)
  ultimately show ?thesis by blast
qed

lemma strip_markers_prefix:
  assumes "strip_markers ln = Some r"
    and "ln = [] \<or> \<not> isspace (hd ln)" and "ln = [] \<or> \<not> isspace (last ln)"
  shows "\<exists>p. ln = p @ r \<and> set p \<subseteq> set MARKERS \<union> {c. isspace c}"
proof -
  let ?P = "\<lambda>ln r. (ln = [] \<or> \<not> isspace (last ln)) \<longrightarrow>
      (\<exists>p. ln = p @ r \<and> set p \<subseteq> set MARKERS \<union> {c. isspace c})"
  have "?P ln r"
  proof (rule strip_markers.raw_induct [where P = ?P, OF _ assms(1)])
    fix f :: "pystr \<Rightarrow> pystr option" and ln r
    assume IH: "\<And>ln r. f ln = Some r \<Longrightarrow> ?P ln r"
      and F: "(if ln \<noteq> [] \<and> (isdigit (hd ln) \<or> hd ln \<in> set (py ''-*''))
               then f (strip (lstrip MARKERS ln)) else Some ln) = Some r"
    show "?P ln r"
    proof (intro impI)
      assume l: "ln = [] \<or> \<not> isspace (last ln)"
      show "\<exists>p. ln = p @ r \<and> set p \<subseteq> set MARKERS \<union> {c. isspace c}"
      proof (cases "ln \<noteq> [] \<and> (isdigit (hd ln) \<or> hd ln \<in> set (py ''-*''))")
        case True
        let ?n = "strip (lstrip MARKERS ln)"
        from True F have "f ?n = Some r" by simp
        moreover have "?n = [] \<or> \<not> isspace (last ?n)"
          using round_suffix(2) [OF l] .
        ultimately obtain p2 where p2: "?n = p2 @ r" "set p2 \<subseteq> set MARKERS \<union> {c. isspace c}"
          using IH by blast
        from round_prefix [OF l] obtain p1 where
          p1: "ln = p1 @ ?n" "set p1 \<subseteq> set MARKERS \<union> {c. isspace c}"
          by blast
        from p1(1) p2(1) have "ln = (p1 @ p2) @ r" by simp
        moreover have "set (p1 @ p2) \<subseteq> set MARKERS \<union> {c. isspace c}"
          using p1(2) p2(2) by simp
        ultimately show ?thesis by blast
      next
        case False
        with F have "r = ln" by (simp split: if_splits)
        then have "ln = [] @ r" by simp
        then show ?thesis by (metis empty_set empty_subsetI)
      qed
    qed
  qed
  with assms(3) show ?thesis by blast
qed

text \<open>
  The loop ends on a line without surrounding whitespace whose first character that is
  neither a marker nor whitespace is not a digit.
\<close>

lemma strip_markers_returns_if:
  assumes "ln = [] \<or> \<not> isspace (hd ln)" and "ln = [] \<or> \<not> isspace (last ln)"
    and "dropWhile (\<lambda>c. c \<in> set MARKERS \<or> isspace c) ln = [] \<or>
         \<not> isdigit (hd (dropWhile (\<lambda>c. c \<in> set MARKERS \<or> isspace c) ln))"
  shows "\<exists>r. strip_markers ln = Some r"
  using assms
proof (induction "length ln" arbitrary: ln rule: less_induct)
  case less
  let ?Q = "\<lambda>c. c \<in> set MARKERS \<or> isspace c"
  show ?case
  proof (cases "ln \<noteq> [] \<and> (isdigit (hd ln) \<or> hd ln \<in> set (py ''-*''))")
    case True
    let ?n = "strip (lstrip MARKERS ln)"
    from True obtain c cs where ln: "ln = c # cs" by (cases ln) auto
    have cm: "c \<in> set MARKERS"
    proof (rule ccontr)
      assume n: "c \<notin> set MARKERS"
      with True ln bullets_in_MARKERS have d: "isdigit c" by auto
      from less.prems(1) ln have "\<not> isspace c" by simp
      with n ln have "dropWhile ?Q ln = ln" by simp
      with less.prems(3) ln d show False by simp
    qed
    then have "lstrip MARKERS ln = dropWhile (\<lambda>c. c \<in> set MARKERS) cs"
      by (simp add: lstrip_def ln)
    then have "length (lstrip MARKERS ln) \<le> length cs"
      by (simp add: length_dropWhile_le)
    then have len: "length ?n < length ln"
      using length_strip_le [of "lstrip MARKERS ln"] by (simp add: ln)
    have h: "?n = [] \<or> \<not> isspace (hd ?n)"
      using hd_strip_not_space by blast
    have l: "?n = [] \<or> \<not> isspace (last ?n)"
      using round_suffix(2) [OF less.prems(2)] .
    from round_prefix [OF less.prems(2)] obtain p where
      p: "ln = p @ ?n" "set p \<subseteq> set MARKERS \<union> {c. isspace c}"
      by blast
    then have "\<forall>x\<in>set p. ?Q x" by auto
    then have "dropWhile ?Q (p @ ?n) = dropWhile ?Q ?n"
      by (induction p) auto
    with p(1) less.prems(3) have q: "dropWhile ?Q ?n = [] \<or> \<not> isdigit (hd (dropWhile ?Q ?n))"
      by metis
    from less.hyps [OF len h l q] show ?thesis
      using True by (simp add: strip_markers_round)
  next
    case False
    then show ?thesis by (simp add: strip_markers_stop)
  qed
qed

lemma clean_loop_result:
  assumes "clean_loop cleaned lns = Some out"
  shows "\<exists>rest. list_all2 (\<lambda>ln r. strip_markers ln = Some r) lns rest \<and>
           out = cleaned @ filter (\<lambda>r. r \<noteq> []) rest"
  using assms
proof (induction lns arbitrary: cleaned)
  case Nil
  then show ?case by simp
next
  case (Cons ln lns)
  from Cons.prems obtain r where r: "strip_markers ln = Some r"
    and c: "clean_loop (if r \<noteq> [] then cleaned @ [r] else cleaned) lns = Some out"
    by (auto split: option.splits)
  from Cons.IH [OF c] obtain rest where rest:
    "list_all2 (\<lambda>ln r. strip_markers ln = Some r) lns rest"
    "out = (if r \<noteq> [] then cleaned @ [r] else cleaned) @ filter (\<lambda>r. r \<noteq> []) rest"
    by blast
  have "list_all2 (\<lambda>ln r. strip_markers ln = Some r) (ln # lns) (r # rest)"
    using r rest(1) by simp
  moreover have "out = cleaned @ filter (\<lambda>r. r \<noteq> []) (r # rest)"
    using rest(2) by simp
  ultimately show ?case by blast
qed


text \<open>
  Claim C4, amended. Whenever the line parser returns, its result lists, in the order of
  the input, what remains of each non-blank line (stripped of surrounding whitespace),
  leaving out the lines of which nothing remains. What remains of a line is the line
  without a prefix made of enumeration markers (ASCII digits, \<^verbatim>\<open>.\<close>, \<^verbatim>\<open>)\<close>, \<^verbatim>\<open>-\<close>, \<^verbatim>\<open>*\<close>,
  space, tab) and whitespace only. A line that begins with neither a digit nor \<^verbatim>\<open>-\<close> nor
  \<^verbatim>\<open>*\<close> is returned whole, so a line that begins with \<^verbatim>\<open>.\<close> or \<^verbatim>\<open>)\<close> keeps it. A line
  that begins with a digit, \<^verbatim>\<open>-\<close> or \<^verbatim>\<open>*\<close> loses at least its whole leading run of markers
  and the whitespace after it, and exactly that when what follows begins with neither a
  digit nor \<^verbatim>\<open>-\<close> nor \<^verbatim>\<open>*\<close>. No returned string is empty, and none begins with a digit,
  \<^verbatim>\<open>-\<close>, \<^verbatim>\<open>*\<close> or whitespace. The parser does return on every text in which no line has
  a digit as its first character that is neither a marker nor whitespace.
\<close>

theorem C4_clean_list:
  "((\<forall>ln\<in>set (nonblank_lines text).
        dropWhile (\<lambda>c. c \<in> set MARKERS \<or> isspace c) ln = [] \<or>
        \<not> isdigit (hd (dropWhile (\<lambda>c. c \<in> set MARKERS \<or> isspace c) ln)))
     \<longrightarrow> (\<exists>out. clean_list_from_text text = Some out))
   \<and> (clean_list_from_text text = Some out \<longrightarrow>
        (\<exists>rest.
           list_all2
             (\<lambda>ln r.
                (\<exists>p. ln = p @ r \<and> set p \<subseteq> set MARKERS \<union> {c. isspace c})
              \<and> (\<not> isdigit (hd ln) \<and> hd ln \<notin> set (py ''-*'') \<longrightarrow> r = ln)
              \<and> (isdigit (hd ln) \<or> hd ln \<in> set (py ''-*'') \<longrightarrow>
                   suffix r (strip (lstrip MARKERS ln))
                 \<and> (strip (lstrip MARKERS ln) = [] \<or>
                      \<not> isdigit (hd (strip (lstrip MARKERS ln))) \<and>
                      hd (strip (lstrip MARKERS ln)) \<notin> set (py ''-*'')
                      \<longrightarrow> r = strip (lstrip MARKERS ln))))
             (nonblank_lines text) rest
         \<and> out = filter (\<lambda>r. r \<noteq> []) rest)
      \<and> (\<forall>s\<in>set out. s \<noteq> [] \<and> \<not> isdigit (hd s) \<and> hd s \<notin> set (py ''-*'') \<and> \<not> isspace (hd s)))"
proof -
  have A: "\<exists>out. clean_list_from_text text = Some out" if h: "\<forall>ln\<in>set (nonblank_lines text).
        dropWhile (\<lambda>c. c \<in> set MARKERS \<or> isspace c) ln = [] \<or>
        \<not> isdigit (hd (dropWhile (\<lambda>c. c \<in> set MARKERS \<or> isspace c) ln))"
  proof -
  have "\<forall>ln\<in>set (nonblank_lines text). \<exists>r. strip_markers ln = Some r"
  proof
    fix ln assume ln: "ln \<in> set (nonblank_lines text)"
    show "\<exists>r. strip_markers ln = Some r"
      using nonblank_lines_props(2,3) [OF ln] h ln
      by (intro strip_markers_returns_if) auto
  qed
  then show ?thesis
    using clean_loop_returns [of "nonblank_lines text" "[]"]
    by (auto simp: clean_list_from_text_def)
  qed
  have B: "(\<exists>rest.
           list_all2
             (\<lambda>ln r.
                (\<exists>p. ln = p @ r \<and> set p \<subseteq> set MARKERS \<union> {c. isspace c})
              \<and> (\<not> isdigit (hd ln) \<and> hd ln \<notin> set (py ''-*'') \<longrightarrow> r = ln)
              \<and> (isdigit (hd ln) \<or> hd ln \<in> set (py ''-*'') \<longrightarrow>
                   suffix r (strip (lstrip MARKERS ln))
                 \<and> (strip (lstrip MARKERS ln) = [] \<or>
                      \<not> isdigit (hd (strip (lstrip MARKERS ln))) \<and>
                      hd (strip (lstrip MARKERS ln)) \<notin> set (py ''-*'')
                      \<longrightarrow> r = strip (lstrip MARKERS ln))))
             (nonblank_lines text) rest
         \<and> out = filter (\<lambda>r. r \<noteq> []) rest)
      \<and> (\<forall>s\<in>set out. s \<noteq> [] \<and> \<not> isdigit (hd s) \<and> hd s \<notin> set (py ''-*'') \<and> \<not> isspace (hd s))"
    if c: "clean_list_from_text text = Some out"
  proof -
  from c obtain rest where rest:
    "list_all2 (\<lambda>ln r. strip_markers ln = Some r) (nonblank_lines text) rest"
    "out = filter (\<lambda>r. r \<noteq> []) rest"
    using clean_loop_result [of "[]" "nonblank_lines text" out]
    by (auto simp: clean_list_from_text_def)
  have each: "(\<lambda>ln r.
                (\<exists>p. ln = p @ r \<and> set p \<subseteq> set MARKERS \<union> {c. isspace c})
              \<and> (\<not> isdigit (hd ln) \<and> hd ln \<notin> set (py ''-*'') \<longrightarrow> r = ln)
              \<and> (isdigit (hd ln) \<or> hd ln \<in> set (py ''-*'') \<longrightarrow>
                   suffix r (strip (lstrip MARKERS ln))
                 \<and> (strip (lstrip MARKERS ln) = [] \<or>
                      \<not> isdigit (hd (strip (lstrip MARKERS ln))) \<and>
                      hd (strip (lstrip MARKERS ln)) \<notin> set (py ''-*'')
                      \<longrightarrow> r = strip (lstrip MARKERS ln)))) ln r
      \<and> (r \<noteq> [] \<longrightarrow> \<not> isdigit (hd r) \<and> hd r \<notin> set (py ''-*'') \<and> \<not> isspace (hd r))"
    if ln: "ln \<in> set (nonblank_lines text)" and r: "strip_markers ln = Some r" for ln r
  proof -
    note st = nonblank_lines_props(1,2,3) [OF ln]
    have 1: "\<exists>p. ln = p @ r \<and> set p \<subseteq> set MARKERS \<union> {c. isspace c}"
      using r st by (intro strip_markers_prefix) auto
    have 2: "r = ln" if "\<not> isdigit (hd ln) \<and> hd ln \<notin> set (py ''-*'')"
      using that r strip_markers_stop [of ln] by auto
    let ?n = "strip (lstrip MARKERS ln)"
    have 3: "suffix r ?n \<and> (?n = [] \<or> \<not> isdigit (hd ?n) \<and> hd ?n \<notin> set (py ''-*'')
                \<longrightarrow> r = ?n)"
      if g: "isdigit (hd ln) \<or> hd ln \<in> set (py ''-*'')"
    proof -
      from g st(1) r have n: "strip_markers ?n = Some r"
        by (simp add: strip_markers_round)
      have hn: "?n = [] \<or> \<not> isspace (hd ?n)"
        using hd_strip_not_space by blast
      have ln': "?n = [] \<or> \<not> isspace (last ?n)"
        by (rule round_suffix(2)) (use st in simp)
      from strip_markers_suffix [OF n hn ln'] have "suffix r ?n" by simp
      moreover have "r = ?n" if "?n = [] \<or> \<not> isdigit (hd ?n) \<and> hd ?n \<notin> set (py ''-*'')"
        using that n strip_markers_stop [of ?n] by auto
      ultimately show ?thesis by blast
    qed
    have 4: "suffix r ln \<and> (r = [] \<or> \<not> isspace (hd r))"
      using r st by (intro strip_markers_suffix) auto
    have 5: "r = [] \<or> (\<not> isdigit (hd r) \<and> hd r \<notin> set (py ''-*''))"
      using r by (rule strip_markers_head)
    from 1 2 3 4 5 show ?thesis by blast
  qed
  have rel: "list_all2
             (\<lambda>ln r.
                (\<exists>p. ln = p @ r \<and> set p \<subseteq> set MARKERS \<union> {c. isspace c})
              \<and> (\<not> isdigit (hd ln) \<and> hd ln \<notin> set (py ''-*'') \<longrightarrow> r = ln)
              \<and> (isdigit (hd ln) \<or> hd ln \<in> set (py ''-*'') \<longrightarrow>
                   suffix r (strip (lstrip MARKERS ln))
                 \<and> (strip (lstrip MARKERS ln) = [] \<or>
                      \<not> isdigit (hd (strip (lstrip MARKERS ln))) \<and>
                      hd (strip (lstrip MARKERS ln)) \<notin> set (py ''-*'')
                      \<longrightarrow> r = strip (lstrip MARKERS ln))))
             (nonblank_lines text) rest"
    by (rule list.rel_mono_strong [OF rest(1)]) (use each in blast)
  have heads: "\<forall>s\<in>set out. s \<noteq> [] \<and> \<not> isdigit (hd s) \<and> hd s \<notin> set (py ''-*'') \<and> \<not> isspace (hd s)"
  proof
    fix s assume "s \<in> set out"
    then have s: "s \<in> set rest" "s \<noteq> []" using rest(2) by auto
    then obtain i where i: "i < length rest" "rest ! i = s"
      by (auto simp: in_set_conv_nth)
    with rest(1) have "nonblank_lines text ! i \<in> set (nonblank_lines text)"
      "strip_markers (nonblank_lines text ! i) = Some s"
      by (auto simp: list_all2_conv_all_nth)
    from each [OF this] s(2) show "s \<noteq> [] \<and> \<not> isdigit (hd s) \<and> hd s \<notin> set (py ''-*'') \<and> \<not> isspace (hd s)" by blast
  qed
  from rel rest(2) heads show ?thesis by blast
  qed
  show ?thesis
    apply (rule conjI)
     apply (rule impI)
     apply (erule A)
    apply (rule impI)
    apply (erule B)
    done
qed

lemma sample_markers:
  "strip_markers (py ''1. What?'') = Some (py ''What?'')"
  "strip_markers (py ''- Why me'') = Some (py ''Why me'')"
  "strip_markers (py ''.NET skills?'') = Some (py ''.NET skills?'')"
proof -
  have d: "isdigit 49" "\<not> isdigit 87" "\<not> isdigit 46"
    by (simp_all add: isdigit_def digit_ranges_def)
  have "strip_markers (py ''1. What?'') = strip_markers (py ''What?'')"
    by (subst strip_markers_round)
       (simp_all add: d py_def strip_def lstrip_def MARKERS_def isspace_def)
  also have "\<dots> = Some (py ''What?'')"
    by (rule strip_markers_stop) (simp add: d py_def)
  finally show "strip_markers (py ''1. What?'') = Some (py ''What?'')" .
  have "strip_markers (py ''- Why me'') = strip_markers (py ''Why me'')"
    by (subst strip_markers_round)
       (simp_all add: d py_def strip_def lstrip_def MARKERS_def isspace_def)
  also have "\<dots> = Some (py ''Why me'')"
    by (rule strip_markers_stop) (simp add: d py_def)
  finally show "strip_markers (py ''- Why me'') = Some (py ''Why me'')" .
  show "strip_markers (py ''.NET skills?'') = Some (py ''.NET skills?'')"
    by (rule strip_markers_stop) (simp add: d py_def)
qed

lemma superscript_lines:
  "nonblank_lines (py ''1. Top '' @ 178 # py '' tips'' @ [10] @ py ''- Why me'' @ [10, 10] @ py ''.NET skills?'') =
     [py ''1. Top '' @ 178 # py '' tips'', py ''- Why me'', py ''.NET skills?'']"
  by (simp add: nonblank_lines_def splitlines_def strip_def is_linebreak_def isspace_def py_def)

lemma superscript_markers:
  "strip_markers (py ''1. Top '' @ 178 # py '' tips'') = Some (py ''Top '' @ 178 # py '' tips'')"
proof -
  have d: "isdigit 49" "\<not> isdigit 84"
    by (simp_all add: isdigit_def digit_ranges_def)
  have "strip_markers (py ''1. Top '' @ 178 # py '' tips'') =
      strip_markers (py ''Top '' @ 178 # py '' tips'')"
    by (subst strip_markers_round)
       (simp_all add: d py_def strip_def lstrip_def MARKERS_def isspace_def)
  also have "\<dots> = Some (py ''Top '' @ 178 # py '' tips'')"
    by (rule strip_markers_stop) (simp add: d py_def)
  finally show ?thesis .
qed

lemma superscript_clean:
  "clean_list_from_text (py ''1. Top '' @ 178 # py '' tips'' @ [10] @ py ''- Why me'' @ [10, 10] @ py ''.NET skills?'') =
   Some [py ''Top '' @ 178 # py '' tips'', py ''Why me'', py ''.NET skills?'']"
proof -
  have ne: "py ''Top '' @ 178 # py '' tips'' \<noteq> []" "py ''Why me'' \<noteq> []"
    "py ''.NET skills?'' \<noteq> []"
    by (simp_all add: py_def)
  show ?thesis
    unfolding clean_list_from_text_def superscript_lines
    using ne by (simp add: superscript_markers sample_markers)
qed

text \<open>
  A response of four lines, the first with a superscript two (U+00B2, a digit for
  \<^verbatim>\<open>isdigit\<close>) inside it and the last beginning with a dot.
\<close>

theorem C4_clean_list_witness:
  "list_all (\<lambda>r. \<not> isdigit (hd r))
     (map (dropWhile (\<lambda>c. c \<in> set MARKERS \<or> isspace c))
        (nonblank_lines (py ''1. Top '' @ 178 # py '' tips'' @ [10] @ py ''- Why me'' @ [10, 10] @ py ''.NET skills?'')))
   \<and> clean_list_from_text (py ''1. Top '' @ 178 # py '' tips'' @ [10] @ py ''- Why me'' @ [10, 10] @ py ''.NET skills?'') =
       Some [py ''Top '' @ 178 # py '' tips'', py ''Why me'', py ''.NET skills?'']
   \<and> list_all (\<lambda>s. s \<noteq> [] \<and> \<not> isdigit (hd s) \<and> hd s \<notin> set (py ''-*'') \<and> \<not> isspace (hd s))
       [py ''Top '' @ 178 # py '' tips'', py ''Why me'', py ''.NET skills?'']"
proof -
  have d: "map (dropWhile (\<lambda>c. c \<in> set MARKERS \<or> isspace c))
        [py ''1. Top '' @ 178 # py '' tips'', py ''- Why me'', py ''.NET skills?''] =
      [py ''Top '' @ 178 # py '' tips'', py ''Why me'', py ''NET skills?'']"
    by (simp add: MARKERS_def isspace_def py_def)
  have n: "\<not> isdigit 84" "\<not> isdigit 87" "\<not> isdigit 78"
    by (simp_all add: isdigit_def digit_ranges_def)
  have a: "list_all (\<lambda>r. \<not> isdigit (hd r))
     (map (dropWhile (\<lambda>c. c \<in> set MARKERS \<or> isspace c))
        (nonblank_lines (py ''1. Top '' @ 178 # py '' tips'' @ [10] @ py ''- Why me'' @ [10, 10] @ py ''.NET skills?'')))"
    unfolding superscript_lines d by (simp add: n py_def)
  then have h: "\<forall>ln\<in>set (nonblank_lines (py ''1. Top '' @ 178 # py '' tips'' @ [10] @ py ''- Why me'' @ [10, 10] @ py ''.NET skills?'')).
        dropWhile (\<lambda>c. c \<in> set MARKERS \<or> isspace c) ln = [] \<or>
        \<not> isdigit (hd (dropWhile (\<lambda>c. c \<in> set MARKERS \<or> isspace c) ln))"
    by (simp add: list_all_iff)
  note inst = C4_clean_list [of "(py ''1. Top '' @ 178 # py '' tips'' @ [10] @ py ''- Why me'' @ [10, 10] @ py ''.NET skills?'')" "[py ''Top '' @ 178 # py '' tips'', py ''Why me'', py ''.NET skills?'']"]
  from inst h obtain out where
    "clean_list_from_text (py ''1. Top '' @ 178 # py '' tips'' @ [10] @ py ''- Why me'' @ [10, 10] @ py ''.NET skills?'') = Some out"
    by blast
  with superscript_clean have c: "clean_list_from_text (py ''1. Top '' @ 178 # py '' tips'' @ [10] @ py ''- Why me'' @ [10, 10] @ py ''.NET skills?'') =
       Some [py ''Top '' @ 178 # py '' tips'', py ''Why me'', py ''.NET skills?'']"
    by simp
  with inst have "\<forall>s\<in>set [py ''Top '' @ 178 # py '' tips'', py ''Why me'', py ''.NET skills?'']. s \<noteq> [] \<and> \<not> isdigit (hd s) \<and> hd s \<notin> set (py ''-*'') \<and> \<not> isspace (hd s)"
    by blast
  then have "list_all (\<lambda>s. s \<noteq> [] \<and> \<not> isdigit (hd s) \<and> hd s \<notin> set (py ''-*'') \<and> \<not> isspace (hd s))
       [py ''Top '' @ 178 # py '' tips'', py ''Why me'', py ''.NET skills?'']"
    by (simp only: list_all_iff)
  with a c show ?thesis by (intro conjI)
qed

text \<open>
  The claim as written also promises that no returned string begins with \<^verbatim>\<open>.\<close> or
  \<^verbatim>\<open>)\<close>. The loop is entered only for a line that begins with a digit, \<^verbatim>\<open>-\<close> or
  \<^verbatim>\<open>*\<close>, so the second line of this response is returned with its leading dot.
\<close>

theorem C4_leading_dot_counterexample:
  "clean_list_from_text (py ''1. What?'' @ [10] @ py ''.NET skills?'') =
     Some [py ''What?'', py ''.NET skills?'']
   \<and> hd (py ''.NET skills?'') \<in> set (py ''.)'')"
proof -
  have l: "nonblank_lines (py ''1. What?'' @ [10] @ py ''.NET skills?'') =
     [py ''1. What?'', py ''.NET skills?'']"
    by (simp add: nonblank_lines_def splitlines_def strip_def is_linebreak_def isspace_def py_def)
  have ne: "py ''What?'' \<noteq> []" "py ''.NET skills?'' \<noteq> []"
    by (simp_all add: py_def)
  have "clean_list_from_text (py ''1. What?'' @ [10] @ py ''.NET skills?'') =
     Some [py ''What?'', py ''.NET skills?'']"
    unfolding clean_list_from_text_def l by (simp add: sample_markers ne)
  moreover have "hd (py ''.NET skills?'') \<in> set (py ''.)'')"
    by (simp add: py_def)
  ultimately show ?thesis by simp
qed

section \<open>Backend failures and validation\<close>

text \<open>
  Claim C5, amended. For a non-empty job title and any requested count \<open>N\<close>, when the
  call of the backend raises an exception with text \<open>e\<close>, \<^verbatim>\<open>generate_questions\<close> returns
  (the exception goes no further) the list that starts with "Error generating
  questions: " followed by \<open>e\<close> and continues with the first \<open>N - 1\<close> fallback questions,
  as far as the ten fallback questions go; one prompt was sent. The list has
  \<open>1 + min (N - 1) 10\<close> entries: it fills the requested count exactly when
  \<open>1 \<le> N \<le> 11\<close>, is the error message alone when \<open>N \<le> 1\<close>, and is the error message
  and all ten fallback questions when \<open>N > 11\<close>.
\<close>

theorem C5_backend_exception:
  assumes "job_title \<noteq> []"
    and "generate_content (questions_prompt job_title N) = Raises e"
  shows "generate_questions (Model generate_content) job_title N =
           ([questions_prompt job_title N],
            Some ((py ''Error generating questions: '' @ e) #
                  take (nat (N - 1)) FALLBACK_QUESTIONS))
       \<and> length ((py ''Error generating questions: '' @ e) #
                  take (nat (N - 1)) FALLBACK_QUESTIONS) = 1 + min (nat (N - 1)) 10
       \<and> (1 \<le> N \<and> N \<le> 11 \<longrightarrow>
            int (length ((py ''Error generating questions: '' @ e) #
                  take (nat (N - 1)) FALLBACK_QUESTIONS)) = N)
       \<and> (N \<le> 1 \<longrightarrow> take (nat (N - 1)) FALLBACK_QUESTIONS = [])
       \<and> (11 < N \<longrightarrow> take (nat (N - 1)) FALLBACK_QUESTIONS = FALLBACK_QUESTIONS)"
proof -
  have "slice_to (max 0 (N - 1)) FALLBACK_QUESTIONS = take (nat (N - 1)) FALLBACK_QUESTIONS"
    by (cases "0 \<le> N - 1") (simp_all add: slice_to_def max_def)
  then have a: "generate_questions (Model generate_content) job_title N =
           ([questions_prompt job_title N],
            Some ((py ''Error generating questions: '' @ e) #
                  take (nat (N - 1)) FALLBACK_QUESTIONS))"
    using assms by (simp add: generate_questions_def)
  have b: "length ((py ''Error generating questions: '' @ e) #
                  take (nat (N - 1)) FALLBACK_QUESTIONS) = 1 + min (nat (N - 1)) 10"
    by (simp add: length_FALLBACK_QUESTIONS)
  have c: "1 \<le> N \<and> N \<le> 11 \<longrightarrow>
            int (length ((py ''Error generating questions: '' @ e) #
                  take (nat (N - 1)) FALLBACK_QUESTIONS)) = N"
    by (auto simp: length_FALLBACK_QUESTIONS)
  have d: "N \<le> 1 \<longrightarrow> take (nat (N - 1)) FALLBACK_QUESTIONS = []"
    by simp
  have e: "11 < N \<longrightarrow> take (nat (N - 1)) FALLBACK_QUESTIONS = FALLBACK_QUESTIONS"
    by (simp add: length_FALLBACK_QUESTIONS)
  from a b c d e show ?thesis by (intro conjI)
qed

theorem C5_backend_exception_witness:
  "py ''Data Scientist'' \<noteq> []
   \<and> (\<lambda>prompt. Raises (py ''quota exceeded'')) (questions_prompt (py ''Data Scientist'') 3)
       = Raises (py ''quota exceeded'')
   \<and> (1::int) \<le> 3 \<and> (3::int) \<le> 11
   \<and> snd (generate_questions (Model (\<lambda>prompt. Raises (py ''quota exceeded'')))
            (py ''Data Scientist'') 3) =
       Some [py ''Error generating questions: quota exceeded'',
             py ''Why should we hire you?'', py ''Tell me about yourself.'']
   \<and> length [py ''Error generating questions: quota exceeded'',
             py ''Why should we hire you?'', py ''Tell me about yourself.''] = 3"
proof -
  have h: "py ''Data Scientist'' \<noteq> []" by (simp add: py_def)
  have t: "take (nat (3 - 1)) FALLBACK_QUESTIONS =
      [py ''Why should we hire you?'', py ''Tell me about yourself.'']"
    by (simp add: FALLBACK_QUESTIONS_def)
  have e: "py ''Error generating questions: '' @ py ''quota exceeded'' =
      py ''Error generating questions: quota exceeded''"
    by (simp add: py_def)
  from C5_backend_exception [OF h, of "\<lambda>prompt. Raises (py ''quota exceeded'')" 3
      "py ''quota exceeded''"]
  show ?thesis using h t e by simp
qed

text \<open>
  The claim as written has the fallback questions fill the requested count for every
  \<open>N\<close>. There are ten fallback questions: with \<open>N = 15\<close> the returned list is the error
  message and those ten, 11 entries and not 15.
\<close>

theorem C5_count_not_filled_counterexample:
  "snd (generate_questions (Model (\<lambda>prompt. Raises (py ''quota exceeded'')))
          (py ''Data Scientist'') 15) =
     Some (py ''Error generating questions: quota exceeded'' # FALLBACK_QUESTIONS)
   \<and> length (py ''Error generating questions: quota exceeded'' # FALLBACK_QUESTIONS) = 11"
proof -
  have h: "py ''Data Scientist'' \<noteq> []" by (simp add: py_def)
  have t: "slice_to (max 0 (15 - 1)) FALLBACK_QUESTIONS = FALLBACK_QUESTIONS"
    by (simp add: slice_to_def length_FALLBACK_QUESTIONS)
  have e: "py ''Error generating questions: '' @ py ''quota exceeded'' =
      py ''Error generating questions: quota exceeded''"
    by (simp add: py_def)
  have "snd (generate_questions (Model (\<lambda>prompt. Raises (py ''quota exceeded'')))
          (py ''Data Scientist'') 15) =
     Some (py ''Error generating questions: quota exceeded'' # FALLBACK_QUESTIONS)"
    using h t e by (simp add: generate_questions_def)
  then show ?thesis by (simp add: length_FALLBACK_QUESTIONS)
qed

text \<open>
  Claim C6. Whatever the backend is and whatever \<open>N\<close> is, \<^verbatim>\<open>generate_questions\<close> with an
  empty job title returns the one-element list holding the fixed placeholder; and for
  every question, \<^verbatim>\<open>get_feedback_on_answer\<close> with an empty or whitespace-only answer
  returns the fixed "no answer" message. In both cases no prompt is sent to the backend
  and a value is returned.
\<close>

theorem C6_validation:
  assumes "list_all isspace answer"
  shows "generate_questions MODEL [] N = ([], Some [py ''Please provide a job title.''])
       \<and> get_feedback_on_answer MODEL question answer =
           ([], py ''No answer provided. Please write your response before requesting feedback.'')"
proof -
  have "strip answer = []" using assms by (simp add: strip_eq_Nil_iff)
  then show ?thesis
    by (simp add: generate_questions_def get_feedback_on_answer_def)
qed

theorem C6_validation_witness:
  "list_all isspace [32, 9, 10]
   \<and> generate_questions (Model (\<lambda>prompt. Raises (py ''down''))) [] 10 =
       ([], Some [py ''Please provide a job title.''])
   \<and> get_feedback_on_answer (Model (\<lambda>prompt. Raises (py ''down'')))
         (py ''Tell me about yourself.'') [32, 9, 10] =
       ([], py ''No answer provided. Please write your response before requesting feedback.'')"
proof -
  have h: "list_all isspace [32, 9, 10]" by (simp add: isspace_def)
  from C6_validation [OF h, of "Model (\<lambda>prompt. Raises (py ''down''))" 10
      "py ''Tell me about yourself.''"]
  show ?thesis using h by simp
qed

lemma strip_markers_diverges:
  assumes "ln \<noteq> []" and "isdigit (hd ln)" and "strip (lstrip MARKERS ln) = ln"
  shows "strip_markers ln = None"
proof -
  have "x \<noteq> ln" if "strip_markers x = Some r" for x r
  proof (rule strip_markers.raw_induct [where P = "\<lambda>x r. x \<noteq> ln", OF _ that])
    fix f :: "pystr \<Rightarrow> pystr option" and x r
    assume IH: "\<And>x r. f x = Some r \<Longrightarrow> x \<noteq> ln"
      and F: "(if x \<noteq> [] \<and> (isdigit (hd x) \<or> hd x \<in> set (py ''-*''))
               then f (strip (lstrip MARKERS x)) else Some x) = Some r"
    show "x \<noteq> ln"
    proof
      assume "x = ln"
      with F assms have "f ln = Some r" by simp
      with IH show False by blast
    qed
  qed
  then show ?thesis by (cases "strip_markers ln") auto
qed

text \<open>
  Claim C7 does not hold of the code. With a backend configured, a response whose text
  is the line "Tell me about yourself." with a circled digit one (U+2460) in front
  makes the loop of the line parser run forever: \<^verbatim>\<open>isdigit\<close> is true of that character,
  \<^verbatim>\<open>lstrip\<close> removes ASCII markers only, so the line never changes. One prompt is sent
  and \<^verbatim>\<open>generate_questions\<close> never returns.
\<close>

theorem C7_parser_never_returns:
  "generate_questions
     (Model (\<lambda>prompt. Returns (Some ([9312, 32] @ py ''Tell me about yourself.''))))
     (py ''Data Scientist'') 3 =
   ([questions_prompt (py ''Data Scientist'') 3], None)"
proof -
  let ?ln = "9312 # 32 # py ''Tell me about yourself.''"
  have s: "strip ?ln = ?ln"
    by (simp add: strip_def isspace_def py_def)
  have l: "nonblank_lines ?ln = [?ln]"
    by (simp add: nonblank_lines_def splitlines_def strip_def is_linebreak_def isspace_def py_def)
  have d: "isdigit 9312"
    by (simp add: isdigit_def digit_ranges_def)
  have m: "strip (lstrip MARKERS ?ln) = ?ln"
    by (simp add: strip_def lstrip_def MARKERS_def isspace_def py_def)
  have "strip_markers ?ln = None"
    by (rule strip_markers_diverges) (use d m in simp_all)
  then have "clean_list_from_text ?ln = None"
    unfolding clean_list_from_text_def l by simp
  moreover have "py ''Data Scientist'' \<noteq> []" by (simp add: py_def)
  ultimately show ?thesis
    by (simp add: generate_questions_def s Let_def)
qed

section \<open>The session invariant\<close>

lemma slice_to_nonempty: "1 \<le> n \<Longrightarrow> xs \<noteq> [] \<Longrightarrow> slice_to n xs \<noteq> []"
  by (cases xs) (auto simp: slice_to_def take_Cons')

lemma generate_questions_nonempty:
  assumes "1 \<le> n" and "snd (generate_questions MODEL job_title n) = Some qs"
  shows "qs \<noteq> []"
proof (cases "job_title = []")
  case True
  with assms(2) show ?thesis by (auto simp: generate_questions_def)
next
  case title: False
  have fb: "FALLBACK_QUESTIONS \<noteq> []" by (simp add: FALLBACK_QUESTIONS_def)
  show ?thesis
  proof (cases MODEL)
    case NoModel
    with title assms slice_to_nonempty [OF assms(1) fb] show ?thesis
      by (auto simp: generate_questions_def)
  next
    case (Model generate_content)
    show ?thesis
    proof (cases "generate_content (questions_prompt job_title n)")
      case (Raises e)
      with Model title assms(2) show ?thesis
        by (auto simp: generate_questions_def)
    next
      case (Returns resp_text)
      let ?t = "strip (case resp_text of None \<Rightarrow> [] | Some t \<Rightarrow> t)"
      from Returns Model title assms(2) obtain questions where
        q: "clean_list_from_text ?t = Some questions"
        and qs: "qs = (if int (length questions) < n
                 then slice_to n (slice_to n
                        (questions @ filter (\<lambda>q. q \<notin> set questions) FALLBACK_QUESTIONS))
                 else slice_to n questions)"
        by (auto simp: generate_questions_def split: option.splits)
      show ?thesis
      proof (cases "questions = []")
        case True
        then have "questions @ filter (\<lambda>q. q \<notin> set questions) FALLBACK_QUESTIONS \<noteq> []"
          using fb by simp
        then show ?thesis
          using qs True assms(1) by (simp add: slice_to_nonempty)
      next
        case False
        then show ?thesis
          using qs assms(1) by (simp add: slice_to_nonempty)
      qed
    qed
  qed
qed

lemma InterviewSession_init_props:
  assumes "InterviewSession_init MODEL job_title n = Some s0"
  shows "self_index s0 = 0" and "self_questions s0 \<noteq> []"
    and "self_job_title s0 = job_title" and "self_n_questions s0 = max 1 n"
proof -
  from assms obtain qs where qs: "snd (generate_questions MODEL job_title (max 1 n)) = Some qs"
    and s0: "s0 = \<lparr>self_job_title = job_title, self_n_questions = max 1 n,
                self_questions = qs, self_index = 0\<rparr>"
    by (auto simp: InterviewSession_init_def Let_def split: option.splits)
  show "self_index s0 = 0" "self_job_title s0 = job_title" "self_n_questions s0 = max 1 n"
    by (simp_all add: s0)
  have "qs \<noteq> []"
    by (rule generate_questions_nonempty [OF _ qs]) simp
  then show "self_questions s0 \<noteq> []" by (simp add: s0)
qed

lemma peek_current_in_range:
  assumes "0 < self_index s" and "self_index s \<le> int (length (self_questions s))"
  shows "peek_current s =
           Inr (Some (py ''Question '' @ str_int (self_index s) @ py '': '' @
                      self_questions s ! nat (self_index s - 1)))"
  using assms by (simp add: peek_current_def getitem_in_range Let_def)

lemma call_preserves:
  assumes "session_inv s"
  shows "\<exists>v s'. call m s = Inr (v, s') \<and> session_inv s'
           \<and> self_questions s' = self_questions s
           \<and> self_job_title s' = self_job_title s
           \<and> self_n_questions s' = self_n_questions s"
proof (cases m)
  case Next
  show ?thesis
  proof (cases "int (length (self_questions s)) \<le> self_index s")
    case True
    then show ?thesis using assms Next by (simp add: next_question_none)
  next
    case False
    with assms have "0 \<le> self_index s" "self_index s < int (length (self_questions s))"
      by (simp_all add: session_inv_def)
    from next_question_some [OF this] show ?thesis
      using Next \<open>self_index s < int (length (self_questions s))\<close> assms
      by (simp add: session_inv_def)
  qed
next
  case Peek
  show ?thesis
  proof (cases "self_index s = 0")
    case True
    then show ?thesis using assms Peek by (simp add: peek_current_def)
  next
    case False
    with assms have "0 < self_index s" "self_index s \<le> int (length (self_questions s))"
      by (simp_all add: session_inv_def)
    from peek_current_in_range [OF this] show ?thesis
      using Peek assms by simp
  qed
next
  case HasNext
  then show ?thesis using assms by simp
next
  case Reset
  then show ?thesis using assms by (simp add: reset_def session_inv_def)
next
  case AllQuestions
  then show ?thesis using assms by simp
qed

lemma run_preserves:
  assumes "session_inv s"
  shows "\<exists>s'. run ms s = Inr s' \<and> session_inv s'
           \<and> self_questions s' = self_questions s
           \<and> self_job_title s' = self_job_title s
           \<and> self_n_questions s' = self_n_questions s"
  using assms
proof (induction ms arbitrary: s)
  case Nil
  then show ?case by simp
next
  case (Cons m ms)
  from call_preserves [OF Cons.prems, of m] obtain v s1 where
    c: "call m s = Inr (v, s1)" "session_inv s1" "self_questions s1 = self_questions s"
      "self_job_title s1 = self_job_title s" "self_n_questions s1 = self_n_questions s"
    by blast
  from Cons.IH [OF c(2)] obtain s' where
    "run ms s1 = Inr s'" "session_inv s'" "self_questions s' = self_questions s1"
      "self_job_title s' = self_job_title s1" "self_n_questions s' = self_n_questions s1"
    by blast
  with c show ?case by simp
qed

lemma init_inv:
  "InterviewSession_init MODEL job_title n = Some s0 \<Longrightarrow> session_inv s0"
  by (simp add: session_inv_def InterviewSession_init_props(1))

text \<open>
  Claim C8. A session that has just been constructed satisfies the invariant
  \<open>0 \<le> cursor \<le> len(questions)\<close>. From a session that satisfies it, every one of the five
  operations returns without raising and leaves a session that satisfies it, and so does
  every sequence of operations, in particular every sequence after construction. In the
  exhausted state, where the cursor equals the number of questions, \<^verbatim>\<open>next_question\<close>
  returns \<^verbatim>\<open>None\<close> and leaves the session, the cursor included, as it is.
\<close>

theorem C8_cursor_invariant:
  assumes "InterviewSession_init MODEL job_title n = Some s0" and "session_inv s"
  shows "session_inv s0
       \<and> (\<exists>v s'. call m s = Inr (v, s') \<and> session_inv s')
       \<and> (\<exists>s'. run ms s = Inr s' \<and> session_inv s')
       \<and> (\<exists>s'. run ms s0 = Inr s' \<and> session_inv s')
       \<and> (self_index s = int (length (self_questions s)) \<longrightarrow>
            next_question s = Inr (None, s) \<and> \<not> has_next s)"
proof -
  have a: "session_inv s0" using assms(1) by (rule init_inv)
  have b: "\<exists>v s'. call m s = Inr (v, s') \<and> session_inv s'"
    using call_preserves [OF assms(2), of m] by blast
  have c: "\<exists>s'. run ms s = Inr s' \<and> session_inv s'"
    using run_preserves [OF assms(2), of ms] by blast
  have d: "\<exists>s'. run ms s0 = Inr s' \<and> session_inv s'"
    using run_preserves [OF a, of ms] by blast
  have e: "self_index s = int (length (self_questions s)) \<longrightarrow>
            next_question s = Inr (None, s) \<and> \<not> has_next s"
    by (simp add: next_question_none has_next_def)
  from a b c d e show ?thesis by blast
qed

theorem C8_cursor_invariant_witness:
  "InterviewSession_init NoModel (py ''Tester'') 2 =
     Some \<lparr>self_job_title = py ''Tester'', self_n_questions = 2,
           self_questions = take 2 FALLBACK_QUESTIONS, self_index = 0\<rparr>
   \<and> session_inv \<lparr>self_job_title = py ''Tester'', self_n_questions = 2,
           self_questions = take 2 FALLBACK_QUESTIONS, self_index = 2\<rparr>
   \<and> self_index \<lparr>self_job_title = py ''Tester'', self_n_questions = 2,
           self_questions = take 2 FALLBACK_QUESTIONS, self_index = 2\<rparr>
       = int (length (self_questions \<lparr>self_job_title = py ''Tester'', self_n_questions = 2,
           self_questions = take 2 FALLBACK_QUESTIONS, self_index = 2\<rparr>))
   \<and> next_question \<lparr>self_job_title = py ''Tester'', self_n_questions = 2,
           self_questions = take 2 FALLBACK_QUESTIONS, self_index = 2\<rparr>
       = Inr (None, \<lparr>self_job_title = py ''Tester'', self_n_questions = 2,
           self_questions = take 2 FALLBACK_QUESTIONS, self_index = 2\<rparr>)
   \<and> (\<exists>s'. run [Next, Peek, Next, Next, HasNext, Reset, AllQuestions]
              \<lparr>self_job_title = py ''Tester'', self_n_questions = 2,
                self_questions = take 2 FALLBACK_QUESTIONS, self_index = 0\<rparr> = Inr s'
            \<and> session_inv s')"
proof -
  let ?S = "\<lambda>i. \<lparr>self_job_title = py ''Tester'', self_n_questions = 2,
           self_questions = take 2 FALLBACK_QUESTIONS, self_index = i\<rparr>"
  have t: "py ''Tester'' \<noteq> []" by (simp add: py_def)
  have i: "InterviewSession_init NoModel (py ''Tester'') 2 = Some (?S 0)"
    using t by (simp add: InterviewSession_init_def generate_questions_NoModel slice_to_nonneg)
  have v: "session_inv (?S 2)"
    by (simp add: session_inv_def length_FALLBACK_QUESTIONS)
  have x: "self_index (?S 2) = int (length (self_questions (?S 2)))"
    by (simp add: length_FALLBACK_QUESTIONS)
  from C8_cursor_invariant [OF i v, of Next "[Next, Peek, Next, Next, HasNext, Reset, AllQuestions]"]
  show ?thesis using i v x by blast
qed

section \<open>reset and peek_current\<close>

text \<open>
  Claim C9. For a session \<open>s\<close> in any state reached from construction by a sequence of
  operations, \<^verbatim>\<open>reset\<close> sets the cursor to 0 and changes nothing else: the question list
  (the one generated at construction) and the job title are the same before and after,
  no backend is involved, and \<^verbatim>\<open>next_question\<close> right after \<^verbatim>\<open>reset\<close> behaves exactly as
  the first \<^verbatim>\<open>next_question\<close> after construction, returning "Question 1: " followed by
  the first question.
\<close>

theorem C9_reset:
  assumes "InterviewSession_init MODEL job_title n = Some s0" and "run ms s0 = Inr s"
  shows "reset s = s\<lparr>self_index := 0\<rparr>
       \<and> all_questions (reset s) = all_questions s
       \<and> all_questions s = all_questions s0
       \<and> self_job_title (reset s) = self_job_title s
       \<and> self_n_questions (reset s) = self_n_questions s
       \<and> next_question (reset s) = next_question s0
       \<and> next_question s0 =
           Inr (Some (py ''Question 1: '' @ hd (all_questions s0)), s0\<lparr>self_index := 1\<rparr>)"
proof -
  have inv0: "session_inv s0" using assms(1) by (rule init_inv)
  from run_preserves [OF inv0, of ms] assms(2)
  have frame: "self_questions s = self_questions s0" "self_job_title s = self_job_title s0"
    "self_n_questions s = self_n_questions s0"
    by auto
  have i0: "self_index s0 = 0" and ne: "self_questions s0 \<noteq> []"
    using InterviewSession_init_props [OF assms(1)] by simp_all
  have eq: "reset s = s0"
    using frame i0 by (cases s, cases s0) (simp add: reset_def)
  have "0 \<le> self_index s0" "self_index s0 < int (length (self_questions s0))"
    using i0 ne by simp_all
  from next_question_some [OF this]
  have first: "next_question s0 =
      Inr (Some (py ''Question 1: '' @ hd (all_questions s0)), s0\<lparr>self_index := 1\<rparr>)"
    using i0 ne
    by (simp add: all_questions_def hd_conv_nth py_def str_int_def str_nat.simps)
  show ?thesis
    using eq first frame by (simp add: reset_def all_questions_def)
qed

theorem C9_reset_witness:
  "InterviewSession_init NoModel (py ''Tester'') 2 =
     Some \<lparr>self_job_title = py ''Tester'', self_n_questions = 2,
           self_questions = [py ''Why should we hire you?'', py ''Tell me about yourself.''],
           self_index = 0\<rparr>
   \<and> run [Next, Next, Next]
         \<lparr>self_job_title = py ''Tester'', self_n_questions = 2,
           self_questions = [py ''Why should we hire you?'', py ''Tell me about yourself.''],
           self_index = 0\<rparr> =
       Inr \<lparr>self_job_title = py ''Tester'', self_n_questions = 2,
            self_questions = [py ''Why should we hire you?'', py ''Tell me about yourself.''],
            self_index = 2\<rparr>
   \<and> next_question (reset \<lparr>self_job_title = py ''Tester'', self_n_questions = 2,
            self_questions = [py ''Why should we hire you?'', py ''Tell me about yourself.''],
            self_index = 2\<rparr>) =
       Inr (Some (py ''Question 1: '' @ py ''Why should we hire you?''),
            \<lparr>self_job_title = py ''Tester'', self_n_questions = 2,
             self_questions = [py ''Why should we hire you?'', py ''Tell me about yourself.''],
             self_index = 1\<rparr>)"
proof -
  let ?S = "\<lambda>i. \<lparr>self_job_title = py ''Tester'', self_n_questions = 2,
           self_questions = [py ''Why should we hire you?'', py ''Tell me about yourself.''],
           self_index = i\<rparr>"
  have t: "py ''Tester'' \<noteq> []" by (simp add: py_def)
  have q: "take 2 FALLBACK_QUESTIONS =
      [py ''Why should we hire you?'', py ''Tell me about yourself.'']"
    by (simp add: FALLBACK_QUESTIONS_def)
  have i: "InterviewSession_init NoModel (py ''Tester'') 2 = Some (?S 0)"
    using t q
    by (simp add: InterviewSession_init_def generate_questions_NoModel slice_to_nonneg)
  have n0: "\<exists>r. next_question (?S 0) = Inr (r, ?S 1)"
    by (simp add: next_question_def getitem_def)
  have n1: "\<exists>r. next_question (?S 1) = Inr (r, ?S 2)"
    by (simp add: next_question_def getitem_def)
  have n2: "next_question (?S 2) = Inr (None, ?S 2)"
    by (simp add: next_question_def)
  have r: "run [Next, Next, Next] (?S 0) = Inr (?S 2)"
    using n0 n1 n2 by (auto simp: of_optional_def)
  have h: "hd (all_questions (?S 0)) = py ''Why should we hire you?''"
    by (simp add: all_questions_def)
  from C9_reset [OF i r] have
    "next_question (reset (?S 2)) = next_question (?S 0)"
    "next_question (?S 0) =
       Inr (Some (py ''Question 1: '' @ hd (all_questions (?S 0))), (?S 0)\<lparr>self_index := 1\<rparr>)"
    by blast+
  then have "next_question (reset (?S 2)) =
       Inr (Some (py ''Question 1: '' @ py ''Why should we hire you?''), ?S 1)"
    using h by simp
  with i r show ?thesis by blast
qed

lemma call_tracking:
  assumes "session_inv s"
    and "shown = (if self_index s = 0 then None
                  else Some (py ''Question '' @ str_int (self_index s) @ py '': '' @
                             self_questions s ! nat (self_index s - 1)))"
  shows "\<exists>v s'. call m s = Inr (v, s') \<and> session_inv s' \<and>
           track m v shown = (if self_index s' = 0 then None
                  else Some (py ''Question '' @ str_int (self_index s') @ py '': '' @
                             self_questions s' ! nat (self_index s' - 1)))"
proof (cases m)
  case Next
  show ?thesis
  proof (cases "int (length (self_questions s)) \<le> self_index s")
    case True
    then show ?thesis
      using assms Next by (simp add: next_question_none of_optional_def)
  next
    case False
    with assms(1) have r: "0 \<le> self_index s" "self_index s < int (length (self_questions s))"
      by (simp_all add: session_inv_def)
    from next_question_some [OF r] show ?thesis
      using Next r by (simp add: session_inv_def of_optional_def)
  qed
next
  case Peek
  show ?thesis
  proof (cases "self_index s = 0")
    case True
    then show ?thesis
      using assms Peek by (simp add: peek_current_def of_optional_def)
  next
    case False
    with assms(1) have "0 < self_index s" "self_index s \<le> int (length (self_questions s))"
      by (simp_all add: session_inv_def)
    from peek_current_in_range [OF this] show ?thesis
      using Peek assms False by (simp add: of_optional_def)
  qed
next
  case HasNext
  then show ?thesis using assms by simp
next
  case Reset
  then show ?thesis using assms by (simp add: reset_def session_inv_def)
next
  case AllQuestions
  then show ?thesis using assms by simp
qed

lemma run_tracking_inv:
  assumes "session_inv s"
    and "shown = (if self_index s = 0 then None
                  else Some (py ''Question '' @ str_int (self_index s) @ py '': '' @
                             self_questions s ! nat (self_index s - 1)))"
  shows "\<exists>s' shown'. run_tracking ms (s, shown) = Inr (s', shown') \<and> session_inv s' \<and>
           shown' = (if self_index s' = 0 then None
                  else Some (py ''Question '' @ str_int (self_index s') @ py '': '' @
                             self_questions s' ! nat (self_index s' - 1)))"
  using assms
proof (induction ms arbitrary: s shown)
  case Nil
  then show ?case by simp
next
  case (Cons m ms)
  from call_tracking [OF Cons.prems, of m] obtain v s1 where
    c: "call m s = Inr (v, s1)" "session_inv s1"
       "track m v shown = (if self_index s1 = 0 then None
                  else Some (py ''Question '' @ str_int (self_index s1) @ py '': '' @
                             self_questions s1 ! nat (self_index s1 - 1)))"
    by blast
  from Cons.IH [OF c(2,3)] c(1) show ?case by simp
qed


text \<open>
  Claim C10, amended. After construction and any sequence of operations,
  \<^verbatim>\<open>peek_current\<close> returns the question that \<^verbatim>\<open>next_question\<close> returned last since the
  session was constructed or last reset, as the very string \<^verbatim>\<open>next_question\<close> returned,
  label included: "Question \<open>i\<close>: " and question \<open>i\<close>, where \<open>i\<close> is the cursor. It leaves
  the session as it is. It returns \<^verbatim>\<open>None\<close> exactly when the cursor is 0, that is when
  \<^verbatim>\<open>next_question\<close> has returned no question since construction or the last reset.
\<close>

theorem C10_peek_current:
  assumes "InterviewSession_init MODEL job_title n = Some s0"
  shows "\<exists>s shown.
           run_tracking ms (s0, None) = Inr (s, shown)
         \<and> peek_current s = Inr shown
         \<and> call Peek s = Inr (of_optional shown, s)
         \<and> shown = (if self_index s = 0 then None
                     else Some (py ''Question '' @ str_int (self_index s) @ py '': '' @
                                self_questions s ! nat (self_index s - 1)))"
proof -
  have inv0: "session_inv s0" using assms by (rule init_inv)
  have i0: "self_index s0 = 0"
    using InterviewSession_init_props(1) [OF assms] .
  then have "None = (if self_index s0 = 0 then None
                  else Some (py ''Question '' @ str_int (self_index s0) @ py '': '' @
                             self_questions s0 ! nat (self_index s0 - 1)))"
    by simp
  from run_tracking_inv [OF inv0 this, of ms] obtain s shown where
    r: "run_tracking ms (s0, None) = Inr (s, shown)" and inv: "session_inv s"
    and sh: "shown = (if self_index s = 0 then None
                  else Some (py ''Question '' @ str_int (self_index s) @ py '': '' @
                             self_questions s ! nat (self_index s - 1)))"
    by blast
  have p: "peek_current s = Inr shown"
  proof (cases "self_index s = 0")
    case True
    then show ?thesis using sh by (simp add: peek_current_def)
  next
    case False
    with inv have "0 < self_index s" "self_index s \<le> int (length (self_questions s))"
      by (simp_all add: session_inv_def)
    from peek_current_in_range [OF this] show ?thesis using sh False by simp
  qed
  then have "call Peek s = Inr (of_optional shown, s)" by simp
  with r p sh show ?thesis by blast
qed

theorem C10_peek_current_witness:
  "InterviewSession_init NoModel (py ''Tester'') 2 =
     Some \<lparr>self_job_title = py ''Tester'', self_n_questions = 2,
           self_questions = [py ''Why should we hire you?'', py ''Tell me about yourself.''],
           self_index = 0\<rparr>
   \<and> run_tracking [Next, Next, HasNext]
         (\<lparr>self_job_title = py ''Tester'', self_n_questions = 2,
            self_questions = [py ''Why should we hire you?'', py ''Tell me about yourself.''],
            self_index = 0\<rparr>, None) =
       Inr (\<lparr>self_job_title = py ''Tester'', self_n_questions = 2,
             self_questions = [py ''Why should we hire you?'', py ''Tell me about yourself.''],
             self_index = 2\<rparr>,
            Some (py ''Question 2: Tell me about yourself.''))
   \<and> peek_current
         \<lparr>self_job_title = py ''Tester'', self_n_questions = 2,
           self_questions = [py ''Why should we hire you?'', py ''Tell me about yourself.''],
           self_index = 2\<rparr> =
       Inr (Some (py ''Question 2: Tell me about yourself.''))"
proof -
  let ?S = "\<lambda>i. \<lparr>self_job_title = py ''Tester'', self_n_questions = 2,
           self_questions = [py ''Why should we hire you?'', py ''Tell me about yourself.''],
           self_index = i\<rparr>"
  have t: "py ''Tester'' \<noteq> []" by (simp add: py_def)
  have q: "take 2 FALLBACK_QUESTIONS =
      [py ''Why should we hire you?'', py ''Tell me about yourself.'']"
    by (simp add: FALLBACK_QUESTIONS_def)
  have i: "InterviewSession_init NoModel (py ''Tester'') 2 = Some (?S 0)"
    using t q
    by (simp add: InterviewSession_init_def generate_questions_NoModel slice_to_nonneg)
  have n0: "next_question (?S 0) =
      Inr (Some (py ''Question 1: Why should we hire you?''), ?S 1)"
    by (simp add: next_question_def getitem_def py_def str_int_def str_nat.simps)
  have n1: "next_question (?S 1) =
      Inr (Some (py ''Question 2: Tell me about yourself.''), ?S 2)"
    by (simp add: next_question_def getitem_def py_def str_int_def str_nat.simps)
  have r: "run_tracking [Next, Next, HasNext] (?S 0, None) =
      Inr (?S 2, Some (py ''Question 2: Tell me about yourself.''))"
    by (simp add: n0 n1 of_optional_def)
  from C10_peek_current [OF i, of "[Next, Next, HasNext]"] r
  have "peek_current (?S 2) = Inr (Some (py ''Question 2: Tell me about yourself.''))"
    by auto
  with i r show ?thesis by blast
qed

text \<open>
  The claim as written has \<^verbatim>\<open>peek_current\<close> return \<^verbatim>\<open>None\<close> only when \<^verbatim>\<open>next_question\<close>
  was never called. After one \<^verbatim>\<open>next_question\<close>, which returns question 1, and a
  \<^verbatim>\<open>reset\<close>, \<^verbatim>\<open>peek_current\<close> returns \<^verbatim>\<open>None\<close>.
\<close>

theorem C10_peek_after_reset_counterexample:
  "InterviewSession_init NoModel (py ''Tester'') 2 =
     Some \<lparr>self_job_title = py ''Tester'', self_n_questions = 2,
           self_questions = [py ''Why should we hire you?'', py ''Tell me about yourself.''],
           self_index = 0\<rparr>
   \<and> next_question
         \<lparr>self_job_title = py ''Tester'', self_n_questions = 2,
           self_questions = [py ''Why should we hire you?'', py ''Tell me about yourself.''],
           self_index = 0\<rparr> =
       Inr (Some (py ''Question 1: Why should we hire you?''),
            \<lparr>self_job_title = py ''Tester'', self_n_questions = 2,
             self_questions = [py ''Why should we hire you?'', py ''Tell me about yourself.''],
             self_index = 1\<rparr>)
   \<and> peek_current
         (reset \<lparr>self_job_title = py ''Tester'', self_n_questions = 2,
            self_questions = [py ''Why should we hire you?'', py ''Tell me about yourself.''],
            self_index = 1\<rparr>) = Inr None"
proof -
  have t: "py ''Tester'' \<noteq> []" by (simp add: py_def)
  have q: "take 2 FALLBACK_QUESTIONS =
      [py ''Why should we hire you?'', py ''Tell me about yourself.'']"
    by (simp add: FALLBACK_QUESTIONS_def)
  have i: "InterviewSession_init NoModel (py ''Tester'') 2 =
     Some \<lparr>self_job_title = py ''Tester'', self_n_questions = 2,
           self_questions = [py ''Why should we hire you?'', py ''Tell me about yourself.''],
           self_index = 0\<rparr>"
    using t q
    by (simp add: InterviewSession_init_def generate_questions_NoModel slice_to_nonneg)
  have n: "next_question
         \<lparr>self_job_title = py ''Tester'', self_n_questions = 2,
           self_questions = [py ''Why should we hire you?'', py ''Tell me about yourself.''],
           self_index = 0\<rparr> =
       Inr (Some (py ''Question 1: Why should we hire you?''),
            \<lparr>self_job_title = py ''Tester'', self_n_questions = 2,
             self_questions = [py ''Why should we hire you?'', py ''Tell me about yourself.''],
             self_index = 1\<rparr>)"
    by (simp add: next_question_def getitem_def py_def str_int_def str_nat.simps)
  have p: "peek_current
         (reset \<lparr>self_job_title = py ''Tester'', self_n_questions = 2,
            self_questions = [py ''Why should we hire you?'', py ''Tell me about yourself.''],
            self_index = 1\<rparr>) = Inr None"
    by (simp add: peek_current_def reset_def)
  from i n p show ?thesis by (intro conjI)
qed

end
